theory Spec2Isabelle
  imports Main "HOL-Library.Multiset"
begin

section \<open>Values exchanged with the scouting service\<close>

text \<open>
  The service answers in JSON and the React client reads the answers as JavaScript
  values.  One datatype covers both sides: \<open>Undefined\<close> is what a missing property reads
  as, \<open>NaN\<close> is what \<open>parseInt\<close> gives when there is no digit.  Numbers are the integers,
  which is all that report and video identities use.
\<close>

datatype js =
    Undefined
  | Null
  | NaN
  | Bool bool
  | Num int
  | Str string
  | Arr "js list"
  | Obj "(string \<times> js) list"

text \<open>A thrown JavaScript \<open>Error\<close>, or a raised Python \<open>Exception\<close>: its message.\<close>

datatype exn = Error string

fun message :: "exn \<Rightarrow> string" where
  "message (Error m) = m"

text \<open>Decimal digits of a number, as both sides print identities.\<close>

fun str_nat :: "nat \<Rightarrow> string" where
  "str_nat n =
     (if n < 10 then [''0123456789'' ! n]
      else str_nat (n div 10) @ [''0123456789'' ! (n mod 10)])"

declare str_nat.simps [simp del]

definition str_int :: "int \<Rightarrow> string" where
  "str_int n = (if n < 0 then ''-'' @ str_nat (nat (- n)) else str_nat (nat n))"

section \<open>The report table (scouting service, \<open>app/services/report_service.py\<close>)\<close>

text \<open>
  The service is present as the compiled module \<open>report_service.cpython-312\<close>
  (\<open>src/unnamed/part_004\<close>); the definitions below follow the instructions of its functions
  \<open>create_report\<close>, \<open>get_reports\<close>, \<open>get_report\<close>, \<open>delete_report\<close>,
  \<open>get_report_file_path\<close> and \<open>generate_report\<close>, and those of the routes in
  \<open>src/scouting-service/app/api/routes/__pycache__/reports.cpython-312.pyc\<close>.

  A row of the table.  The status column is a string; \<open>file_path\<close> is the location of the
  rendered PDF, \<open>analysis_results\<close> the stored analysis document.  The column \<open>id\<close> is
  written \<open>id'\<close>.
\<close>

type_synonym timestamp = nat

datatype analysis_document = AnalysisDocument js

record report =
  id' :: nat
  title :: string
  description :: "string option"
  video_id :: int
  video_title :: "string option"
  team_name :: "string option"
  opponent_name :: "string option"
  game_date :: "timestamp option"
  user_id :: nat
  status :: string
  file_path :: "string option"
  analysis_results :: "analysis_document option"
  created_at :: timestamp
  updated_at :: timestamp
  completed_at :: "timestamp option"

text \<open>The body of a creation request (schema \<open>ReportCreate\<close>, \<open>src/unnamed/part_002\<close>).\<close>

record ReportCreate =
  in_title :: string
  in_description :: "string option"
  in_video_id :: int
  in_video_title :: "string option"
  in_team_name :: "string option"
  in_opponent_name :: "string option"
  in_game_date :: "timestamp option"
  in_user_id :: nat

text \<open>
  The database session: the rows in insertion order and the sequence that numbers them.
\<close>

record database =
  reports :: "report list"
  next_id :: nat

text \<open>\<open>db.query(Report).filter(Report.id == report_id).first()\<close>\<close>

fun first_report :: "report list \<Rightarrow> nat \<Rightarrow> report option" where
  "first_report [] report_id = None"
| "first_report (r # rs) report_id =
     (if id' r = report_id then Some r else first_report rs report_id)"

text \<open>
  \<open>db.commit()\<close> after attributes of the loaded row object were assigned: the row with
  that primary key is rewritten.  A row deleted in the meantime is not brought back.
\<close>

definition commit_report :: "database \<Rightarrow> report \<Rightarrow> database" where
  "commit_report db r =
     db\<lparr>reports := map (\<lambda>x. if id' x = id' r then r else x) (reports db)\<rparr>"

text \<open>
  Modelled from the spec: the column defaults of the table (\<open>app/models/report.py\<close> is
  not among the sources).  The identity is assigned at creation, from a sequence; the
  artifact location, the analysis result and the completion time are null until set; the
  created and updated timestamps are the time of creation.
\<close>

definition Report_defaults :: "nat \<Rightarrow> timestamp \<Rightarrow> report" where
  "Report_defaults n clock = \<lparr>
     id' = n,
     title = [],
     description = None,
     video_id = 0,
     video_title = None,
     team_name = None,
     opponent_name = None,
     game_date = None,
     user_id = 0,
     status = [],
     file_path = None,
     analysis_results = None,
     created_at = clock,
     updated_at = clock,
     completed_at = None\<rparr>"

text \<open>
  \<open>create_report\<close>: a \<open>Report\<close> is built from the eight descriptive fields of the
  request and \<open>status = "queued"\<close>, then added, committed, refreshed and returned.
  \<open>clock\<close> is the time of the commit.
\<close>

definition create_report :: "database \<Rightarrow> ReportCreate \<Rightarrow> timestamp \<Rightarrow> database \<times> report" where
  "create_report db report_in clock =
     (let db_report = (Report_defaults (next_id db) clock)\<lparr>
            title := in_title report_in,
            description := in_description report_in,
            video_id := in_video_id report_in,
            video_title := in_video_title report_in,
            team_name := in_team_name report_in,
            opponent_name := in_opponent_name report_in,
            game_date := in_game_date report_in,
            user_id := in_user_id report_in,
            status := ''queued''\<rparr>
      in (db\<lparr>reports := reports db @ [db_report], next_id := Suc (next_id db)\<rparr>, db_report))"

text \<open>
  \<open>delete_report\<close>: \<open>False\<close> when no row has the identity; otherwise \<open>db.delete(row)\<close>,
  \<open>db.commit()\<close> and \<open>True\<close>.  Nothing but the session is touched.
\<close>

definition delete_report :: "database \<Rightarrow> nat \<Rightarrow> database \<times> bool" where
  "delete_report db report_id =
     (case first_report (reports db) report_id of
        None \<Rightarrow> (db, False)
      | Some db_report \<Rightarrow>
          (db\<lparr>reports := filter (\<lambda>x. id' x \<noteq> id' db_report) (reports db)\<rparr>, True))"

text \<open>
  \<open>get_report_file_path\<close>: the stored path, or \<open>None\<close> when the row is missing or its
  path is empty.
\<close>

definition get_report_file_path :: "database \<Rightarrow> nat \<Rightarrow> string option" where
  "get_report_file_path db report_id =
     (case first_report (reports db) report_id of
        None \<Rightarrow> None
      | Some db_report \<Rightarrow>
          (case file_path db_report of
             None \<Rightarrow> None
           | Some p \<Rightarrow> if p = [] then None else Some p))"

section \<open>The pipeline: \<open>generate_report\<close>\<close>

text \<open>
  What the pipeline calls outside the service.  \<open>client_get\<close> is the request
  \<open>GET {MAIN_BACKEND_URL}/api/videos/{video_id}\<close> that \<open>get_video_data\<close> sends: it
  raises or gives a response, whose body parses or not.  \<open>analyze_video\<close> and
  \<open>generate_pdf\<close> are called through module-level singletons and return their value or
  the exception they raised; \<open>generate_pdf\<close> receives the analysis and the row.
  \<open>datetime_now\<close> is the clock read on success.
\<close>

record http_response =
  status_code :: nat
  response_json :: "exn + js"

record services =
  client_get :: "int \<Rightarrow> exn + http_response"
  analyze_video :: "js \<Rightarrow> exn + analysis_document"
  generate_pdf :: "analysis_document \<Rightarrow> report \<Rightarrow> exn + string"
  datetime_now :: timestamp

text \<open>Python's \<open>value[key]\<close> with a string key: only a dictionary that has the key answers.\<close>

fun subscript :: "js \<Rightarrow> string \<Rightarrow> exn + js" where
  "subscript (Obj kvs) k =
     (case map_of kvs k of None \<Rightarrow> Inl (Error ''KeyError'') | Some v \<Rightarrow> Inr v)"
| "subscript v k = Inl (Error ''TypeError'')"

text \<open>The dictionary \<open>get_video_data\<close> returns from its \<open>except Exception\<close> clause.\<close>

definition sample_video :: "int \<Rightarrow> js" where
  "sample_video v = Obj [
     (''id'', Num v),
     (''title'', Str (''Sample Game Video '' @ str_int v)),
     (''description'', Str ''Basketball game footage''),
     (''streaming_url'', Str (''http://example.com/videos/'' @ str_int v)),
     (''duration'', Num 3600),
     (''content_type'', Str ''video/mp4'')]"

text \<open>
  \<open>get_video_data\<close> (\<open>video_analysis_service\<close>, \<open>src/unnamed/part_003\<close>).  Inside
  \<open>try\<close>: the request; a status other than 200 raises; otherwise
  \<open>response.json()["data"]\<close> is returned.  Every exception of the block is caught by
  \<open>except Exception\<close>, logged, and answered with the sample dictionary, so the function
  does not raise.
\<close>

definition get_video_data :: "services \<Rightarrow> int \<Rightarrow> js" where
  "get_video_data env v =
     (case client_get env v of
        Inl e \<Rightarrow> sample_video v
      | Inr response \<Rightarrow>
          if status_code response \<noteq> 200 then sample_video v
          else (case response_json response of
                  Inl e \<Rightarrow> sample_video v
                | Inr body \<Rightarrow>
                    (case subscript body ''data'' of
                       Inl e \<Rightarrow> sample_video v
                     | Inr video_data \<Rightarrow> video_data)))"

text \<open>
  The three awaited calls of the \<open>try\<close> block of \<open>generate_report\<close>, in order; the first
  exception ends the block.
\<close>

definition run_pipeline :: "services \<Rightarrow> report \<Rightarrow> exn + (analysis_document \<times> string)" where
  "run_pipeline env r =
     (let video_data = get_video_data env (video_id r)
      in case analyze_video env video_data of
           Inl e \<Rightarrow> Inl e
         | Inr results \<Rightarrow>
             (case generate_pdf env results r of
                Inl e \<Rightarrow> Inl e
              | Inr pdf_path \<Rightarrow> Inr (results, pdf_path)))"

text \<open>
  \<open>generate_report\<close> up to its first commit: the row is looked up; when it is missing the
  function logs and returns; otherwise \<open>status = "processing"\<close> is assigned and
  committed.  The status of the row is not examined.
\<close>

definition generate_report_begin :: "database \<Rightarrow> nat \<Rightarrow> (database \<times> report) option" where
  "generate_report_begin db report_id =
     (case first_report (reports db) report_id of
        None \<Rightarrow> None
      | Some db_report \<Rightarrow>
          (let r = db_report\<lparr>status := ''processing''\<rparr>
           in Some (commit_report db r, r)))"

text \<open>
  The rest of the \<open>try\<close> block and the \<open>except Exception\<close> clause.  On success the row
  object receives \<open>status = "completed"\<close>, \<open>file_path\<close>, \<open>analysis_results\<close> and
  \<open>completed_at = datetime.now()\<close> before one commit; on an exception it receives
  \<open>status = "failed"\<close> and is committed, and nothing else is assigned.
\<close>

definition generate_report_end :: "services \<Rightarrow> database \<Rightarrow> report \<Rightarrow> database" where
  "generate_report_end env db r =
     (case run_pipeline env r of
        Inr (results, pdf_path) \<Rightarrow>
          commit_report db
            (r\<lparr>status := ''completed'',
               file_path := Some pdf_path,
               analysis_results := Some results,
               completed_at := Some (datetime_now env)\<rparr>)
      | Inl e \<Rightarrow> commit_report db (r\<lparr>status := ''failed''\<rparr>))"

definition generate_report :: "services \<Rightarrow> database \<Rightarrow> nat \<Rightarrow> database" where
  "generate_report env db report_id =
     (case generate_report_begin db report_id of
        None \<Rightarrow> db
      | Some (db1, r) \<Rightarrow> generate_report_end env db1 r)"

section \<open>What the service returns for a report\<close>

text \<open>
  The dictionary built for a report by \<open>get_reports\<close> and \<open>get_report\<close>.  Both give
  \<open>download_url\<close> the value \<open>/api/reports/{id}/download\<close> when the status equals
  \<open>"completed"\<close> and \<open>None\<close> otherwise.  \<open>get_report\<close> adds the key
  \<open>analysis_results\<close> with the stored value, whatever the status; the dictionaries of
  \<open>get_reports\<close> have no such key, which is written \<open>None\<close> here.  Timestamps stand for
  their ISO texts.
\<close>

record report_dict =
  d_id :: nat
  d_title :: string
  d_description :: "string option"
  d_video_id :: int
  d_video_title :: "string option"
  d_team_name :: "string option"
  d_opponent_name :: "string option"
  d_game_date :: "timestamp option"
  d_status :: string
  d_user_id :: nat
  d_created_at :: timestamp
  d_updated_at :: timestamp
  d_completed_at :: "timestamp option"
  d_analysis_results :: "analysis_document option"
  d_download_url :: "string option"

definition download_url :: "report \<Rightarrow> string option" where
  "download_url r =
     (if status r = ''completed''
      then Some (''/api/reports/'' @ str_nat (id' r) @ ''/download'')
      else None)"

definition report_summary :: "report \<Rightarrow> report_dict" where
  "report_summary r = \<lparr>
     d_id = id' r,
     d_title = title r,
     d_description = description r,
     d_video_id = video_id r,
     d_video_title = video_title r,
     d_team_name = team_name r,
     d_opponent_name = opponent_name r,
     d_game_date = game_date r,
     d_status = status r,
     d_user_id = user_id r,
     d_created_at = created_at r,
     d_updated_at = updated_at r,
     d_completed_at = completed_at r,
     d_analysis_results = None,
     d_download_url = download_url r\<rparr>"

text \<open>
  \<open>get_reports\<close>: the query is filtered by owner when \<open>user_id\<close> is not \<open>None\<close>, ordered
  by \<open>created_at\<close> descending, then \<open>offset(skip)\<close> and \<open>limit(limit)\<close>.  The order of rows
  created at the same time is the database's choice, made anew by every query: \<open>tie\<close>
  stands for that choice, rows of equal \<open>created_at\<close> coming by descending \<open>tie\<close>.
\<close>

definition order_by_created_at_desc :: "(report \<Rightarrow> nat) \<Rightarrow> report list \<Rightarrow> report list" where
  "order_by_created_at_desc tie rs = rev (sort_key created_at (sort_key tie rs))"

definition get_reports ::
  "(report \<Rightarrow> nat) \<Rightarrow> database \<Rightarrow> nat option \<Rightarrow> nat \<Rightarrow> nat \<Rightarrow> report_dict list" where
  "get_reports tie db owner skip limit =
     (let query = (case owner of
                     None \<Rightarrow> reports db
                   | Some u \<Rightarrow> filter (\<lambda>r. user_id r = u) (reports db));
          rows = take limit (drop skip (order_by_created_at_desc tie query))
      in map report_summary rows)"

definition get_report :: "database \<Rightarrow> nat \<Rightarrow> report_dict option" where
  "get_report db report_id =
     (case first_report (reports db) report_id of
        None \<Rightarrow> None
      | Some db_report \<Rightarrow>
          Some ((report_summary db_report)\<lparr>d_analysis_results := analysis_results db_report\<rparr>))"

section \<open>The routes and the running service\<close>

text \<open>
  The state of the running service: the database, the background tasks added and not yet
  started (each is a call of \<open>generate_report\<close> for the identity listed), the row objects
  held by the tasks that are between their first commit and their last, and the files the
  renderer has stored.
\<close>

record system =
  sys_db :: database
  background_tasks :: "nat list"
  in_flight :: "report list"
  files :: "string list"

datatype http_error = HTTPException nat string

text \<open>
  \<open>POST /reports\<close>: the row is created, \<open>generate_report\<close> is added as a background task
  for its identity, and the answer \<open>{report_id, status}\<close> is returned with the message and
  code 202.  The pipeline is not called here.
\<close>

definition create_report_route ::
  "system \<Rightarrow> ReportCreate \<Rightarrow> timestamp \<Rightarrow> system \<times> ((nat \<times> string) \<times> string \<times> nat)" where
  "create_report_route s report_in clock =
     (let (db1, r) = create_report (sys_db s) report_in clock
      in (s\<lparr>sys_db := db1, background_tasks := background_tasks s @ [id' r]\<rparr>,
          ((id' r, status r), ''Report creation initiated'', 202)))"

text \<open>\<open>GET /reports/{report_id}\<close>: 404 when \<open>get_report\<close> returns \<open>None\<close>.\<close>

definition get_report_route :: "system \<Rightarrow> nat \<Rightarrow> http_error + report_dict" where
  "get_report_route s report_id =
     (case get_report (sys_db s) report_id of
        None \<Rightarrow> Inl (HTTPException 404 ''Report not found'')
      | Some d \<Rightarrow> Inr d)"

text \<open>\<open>DELETE /reports/{report_id}\<close>: 404 when \<open>delete_report\<close> returns \<open>False\<close>.\<close>

definition delete_report_route :: "system \<Rightarrow> nat \<Rightarrow> system \<times> (http_error + string)" where
  "delete_report_route s report_id =
     (case delete_report (sys_db s) report_id of
        (db1, True) \<Rightarrow> (s\<lparr>sys_db := db1\<rparr>, Inr ''Report deleted successfully'')
      | (db1, False) \<Rightarrow> (s, Inl (HTTPException 404 ''Report not found'')))"

text \<open>
  A background task starts: \<open>generate_report\<close> runs to its first commit and then waits
  for the collaborators.
\<close>

definition task_begin :: "system \<Rightarrow> nat \<Rightarrow> system" where
  "task_begin s report_id =
     (case generate_report_begin (sys_db s) report_id of
        None \<Rightarrow> s\<lparr>background_tasks := remove1 report_id (background_tasks s)\<rparr>
      | Some (db1, r) \<Rightarrow>
          s\<lparr>sys_db := db1,
            background_tasks := remove1 report_id (background_tasks s),
            in_flight := r # in_flight s\<rparr>)"

text \<open>
  Modelled from the spec: the renderer (\<open>app/services/pdf_generator_service.py\<close> is not
  among the sources) persists the artifact it renders and returns its location.
\<close>

definition rendered :: "services \<Rightarrow> report \<Rightarrow> string list" where
  "rendered env r = (case run_pipeline env r of Inr (results, pdf_path) \<Rightarrow> [pdf_path] | Inl e \<Rightarrow> [])"

text \<open>The task finishes: the collaborators have answered and the last commit is made.\<close>

definition task_end :: "services \<Rightarrow> system \<Rightarrow> report \<Rightarrow> system" where
  "task_end env s r =
     s\<lparr>sys_db := generate_report_end env (sys_db s) r,
       in_flight := remove1 r (in_flight s),
       files := files s @ rendered env r\<rparr>"

definition init :: system where
  "init = \<lparr>sys_db = \<lparr>reports = [], next_id = 1\<rparr>, background_tasks = [], in_flight = [], files = []\<rparr>"

text \<open>
  One step of the service: a creation request, the start or the end of a background
  task, a delete request.  Reading a report or the list changes nothing.
\<close>

inductive step :: "system \<Rightarrow> system \<Rightarrow> bool" where
  step_create: "step s (fst (create_report_route s report_in clock))"
| step_begin: "report_id \<in> set (background_tasks s) \<Longrightarrow> step s (task_begin s report_id)"
| step_end: "r \<in> set (in_flight s) \<Longrightarrow> step s (task_end env s r)"
| step_delete: "step s (fst (delete_report_route s report_id))"

inductive reachable :: "system \<Rightarrow> bool" where
  reachable_init: "reachable init"
| reachable_step: "reachable s \<Longrightarrow> step s t \<Longrightarrow> reachable t"

text \<open>
  What holds of every state the service reaches.  A row whose task has not started is
  as \<open>create_report\<close> left it; a row whose task is between its commits is the object
  the task holds; any other row was written by the last commit of its task.
\<close>

definition row_nulls :: "report \<Rightarrow> bool" where
  "row_nulls r \<longleftrightarrow> file_path r = None \<and> analysis_results r = None \<and> completed_at r = None"

definition row_done :: "report \<Rightarrow> bool" where
  "row_done r \<longleftrightarrow>
     (status r = ''completed'' \<and> file_path r \<noteq> None \<and> analysis_results r \<noteq> None
        \<and> completed_at r \<noteq> None)
     \<or> (status r = ''failed'' \<and> row_nulls r)"

definition row_ok :: "system \<Rightarrow> report \<Rightarrow> bool" where
  "row_ok s r \<longleftrightarrow>
     (if id' r \<in> set (background_tasks s) then status r = ''queued'' \<and> row_nulls r
      else if id' r \<in> id' ` set (in_flight s) then r \<in> set (in_flight s)
      else row_done r)"

definition flight_ok :: "system \<Rightarrow> report \<Rightarrow> bool" where
  "flight_ok s r \<longleftrightarrow>
     status r = ''processing'' \<and> row_nulls r \<and> id' r < next_id (sys_db s)
     \<and> id' r \<notin> set (background_tasks s)"

definition sys_inv :: "system \<Rightarrow> bool" where
  "sys_inv s \<longleftrightarrow>
     distinct (map id' (reports (sys_db s)))
     \<and> (\<forall>r \<in> set (reports (sys_db s)). id' r < next_id (sys_db s) \<and> row_ok s r)
     \<and> distinct (background_tasks s)
     \<and> (\<forall>i \<in> set (background_tasks s). i < next_id (sys_db s))
     \<and> distinct (map id' (in_flight s))
     \<and> (\<forall>r \<in> set (in_flight s). flight_ok s r)"

text \<open>The row written by the last commit of a task that holds \<open>r\<close>.\<close>

definition final_row :: "services \<Rightarrow> report \<Rightarrow> report" where
  "final_row env r =
     (case run_pipeline env r of
        Inr (results, pdf_path) \<Rightarrow>
          r\<lparr>status := ''completed'', file_path := Some pdf_path,
            analysis_results := Some results, completed_at := Some (datetime_now env)\<rparr>
      | Inl e \<Rightarrow> r\<lparr>status := ''failed''\<rparr>)"

text \<open>The arrows of the status diagram, and staying in place.\<close>

definition transition_ok :: "string \<Rightarrow> string \<Rightarrow> bool" where
  "transition_ok a b \<longleftrightarrow>
     a = b
     \<or> (a = ''queued'' \<and> b = ''processing'')
     \<or> (a = ''processing'' \<and> (b = ''completed'' \<or> b = ''failed''))"

definition statuses :: "string set" where
  "statuses = {''queued'', ''processing'', ''completed'', ''failed''}"

section \<open>The client: JavaScript values\<close>

fun truthy :: "js \<Rightarrow> bool" where
  "truthy Undefined = False"
| "truthy Null = False"
| "truthy NaN = False"
| "truthy (Bool b) = b"
| "truthy (Num n) = (n \<noteq> 0)"
| "truthy (Str s) = (s \<noteq> [])"
| "truthy (Arr xs) = True"
| "truthy (Obj kvs) = True"

text \<open>\<open>a || b\<close>\<close>

definition js_or :: "js \<Rightarrow> js \<Rightarrow> js" where
  "js_or a b = (if truthy a then a else b)"

text \<open>
  Reading a property that is not a built-in member (\<open>message\<close>, \<open>status\<close>, \<open>data\<close>,
  \<open>id\<close>, \<open>team_analysis\<close>): a \<open>TypeError\<close> on \<open>null\<close> and \<open>undefined\<close>, the value or
  \<open>undefined\<close> on an object, \<open>undefined\<close> on anything else.
\<close>

fun get_prop :: "js \<Rightarrow> string \<Rightarrow> exn + js" where
  "get_prop Undefined k =
     Inl (Error (''Cannot read properties of undefined (reading '' @ k @ '')''))"
| "get_prop Null k = Inl (Error (''Cannot read properties of null (reading '' @ k @ '')''))"
| "get_prop (Obj kvs) k = Inr (case map_of kvs k of None \<Rightarrow> Undefined | Some v \<Rightarrow> v)"
| "get_prop v k = Inr Undefined"

fun join :: "string \<Rightarrow> string list \<Rightarrow> string" where
  "join sep [] = []"
| "join sep [x] = x"
| "join sep (x # y # ys) = x @ sep @ join sep (y # ys)"

text \<open>\<open>String(v)\<close>, as \<open>new Error(v)\<close> and \<open>parseInt(v)\<close> apply it.\<close>

fun to_string :: "js \<Rightarrow> string" where
  "to_string Undefined = ''undefined''"
| "to_string Null = ''null''"
| "to_string NaN = ''NaN''"
| "to_string (Bool b) = (if b then ''true'' else ''false'')"
| "to_string (Num n) = str_int n"
| "to_string (Str s) = s"
| "to_string (Arr xs) =
     join '','' (map (\<lambda>x. if x = Null \<or> x = Undefined then [] else to_string x) xs)"
| "to_string (Obj kvs) = ''[object Object]''"

definition is_space :: "char \<Rightarrow> bool" where
  "is_space c \<longleftrightarrow> c \<in> {CHR '' '', CHR 0x09, CHR 0x0A, CHR 0x0B, CHR 0x0C, CHR 0x0D}"

definition digit_val :: "char \<Rightarrow> nat option" where
  "digit_val c =
     (let n = of_char c :: nat in
      if 48 \<le> n \<and> n \<le> 57 then Some (n - 48)
      else if 97 \<le> n \<and> n \<le> 122 then Some (n - 87)
      else if 65 \<le> n \<and> n \<le> 90 then Some (n - 55)
      else None)"

text \<open>The longest prefix of digits below the radix; \<open>None\<close> when it is empty.\<close>

fun parse_digits :: "nat \<Rightarrow> string \<Rightarrow> nat option \<Rightarrow> nat option" where
  "parse_digits radix [] acc = acc"
| "parse_digits radix (c # cs) acc =
     (case digit_val c of
        None \<Rightarrow> acc
      | Some d \<Rightarrow>
          if d < radix
          then parse_digits radix cs (Some ((case acc of None \<Rightarrow> 0 | Some a \<Rightarrow> a) * radix + d))
          else acc)"

text \<open>
  \<open>parseInt(v)\<close> with no radix: leading white space, a sign, a \<open>0x\<close> prefix for base 16,
  then digits; \<open>NaN\<close> without a digit.
\<close>

definition parseInt :: "js \<Rightarrow> js" where
  "parseInt v =
     (let s = dropWhile is_space (to_string v);
          (neg, s1) = (case s of
                         c # t \<Rightarrow> if c = CHR ''-'' then (True, t)
                                  else if c = CHR ''+'' then (False, t) else (False, s)
                       | [] \<Rightarrow> (False, s));
          (radix, s2) = (if take 2 s1 = ''0x'' \<or> take 2 s1 = ''0X''
                         then (16, drop 2 s1) else (10, s1))
      in case parse_digits radix s2 None of
           None \<Rightarrow> NaN
         | Some n \<Rightarrow> Num (if neg then - int n else int n))"

section \<open>The client: \<open>controllers/scoutingController.js\<close>\<close>

text \<open>
  What \<open>await fetchWithAuth(...)\<close> and \<open>await response.json()\<close> give: a value, or the
  error the promise was rejected with.  The object in \<open>Obj\<close> is the parsed body, its keys
  distinct.
\<close>

record response =
  ok :: bool
  json :: "exn + js"

type_synonym fetched = "exn + response"

text \<open>
  A callback takes its arguments and returns normally (\<open>None\<close>) or throws.  Each
  controller returns the calls it made, in order, and how its promise settled: \<open>None\<close>
  when fulfilled, the error when rejected.
\<close>

type_synonym callback = "js list \<Rightarrow> exn option"

datatype call = OnSuccess "js list" | OnError "js list"

type_synonym settled = "call list \<times> exn option"

text \<open>
  The \<open>catch (error)\<close> clause shared by the four controllers: the error is logged and
  \<open>onError(error.message)\<close> is called.
\<close>

definition catch_clause :: "callback \<Rightarrow> settled \<Rightarrow> settled" where
  "catch_clause onError tried =
     (case tried of
        (calls, None) \<Rightarrow> (calls, None)
      | (calls, Some error) \<Rightarrow>
          (calls @ [OnError [Str (message error)]], onError [Str (message error)]))"

text \<open>Reading \<open>data.k\<close> inside the \<open>try\<close> block, then going on with the value.\<close>

definition reading :: "js \<Rightarrow> string \<Rightarrow> (js \<Rightarrow> settled) \<Rightarrow> settled" where
  "reading data k cont = (case get_prop data k of Inl e \<Rightarrow> ([], Some e) | Inr v \<Rightarrow> cont v)"

text \<open>
  The start of each \<open>try\<close> block: the fetch, the body, and
  \<open>if (!response.ok) throw new Error(data.message || fallback)\<close>.
\<close>

definition awaiting :: "fetched \<Rightarrow> string \<Rightarrow> (js \<Rightarrow> settled) \<Rightarrow> settled" where
  "awaiting fetched fallback cont =
     (case fetched of
        Inl e \<Rightarrow> ([], Some e)
      | Inr response \<Rightarrow>
          (case json response of
             Inl e \<Rightarrow> ([], Some e)
           | Inr data \<Rightarrow>
               if \<not> ok response
               then reading data ''message''
                      (\<lambda>m. ([], Some (Error (to_string (js_or m (Str fallback))))))
               else cont data))"

definition getReports :: "fetched \<Rightarrow> callback \<Rightarrow> callback \<Rightarrow> settled" where
  "getReports fetched onSuccess onError =
     catch_clause onError
       (awaiting fetched ''Failed to fetch reports'' (\<lambda>data.
          let otherwise = reading data ''message'' (\<lambda>m.
                ([OnError [js_or m (Str ''Failed to fetch reports'')]],
                 onError [js_or m (Str ''Failed to fetch reports'')]))
          in reading data ''status'' (\<lambda>st.
               if st = Str ''success''
               then reading data ''data'' (\<lambda>payload.
                      if truthy payload
                      then ([OnSuccess [payload]], onSuccess [payload])
                      else otherwise)
               else otherwise)))"

definition getReportById :: "fetched \<Rightarrow> callback \<Rightarrow> callback \<Rightarrow> settled" where
  "getReportById fetched onSuccess onError =
     catch_clause onError
       (awaiting fetched ''Failed to fetch report'' (\<lambda>data.
          let otherwise = reading data ''message'' (\<lambda>m.
                ([OnError [js_or m (Str ''Failed to fetch report'')]],
                 onError [js_or m (Str ''Failed to fetch report'')]))
          in reading data ''status'' (\<lambda>st.
               if st = Str ''success''
               then reading data ''data'' (\<lambda>payload.
                      if truthy payload
                      then ([OnSuccess [payload]], onSuccess [payload])
                      else otherwise)
               else otherwise)))"

definition createReport :: "fetched \<Rightarrow> callback \<Rightarrow> callback \<Rightarrow> settled" where
  "createReport fetched onSuccess onError =
     catch_clause onError
       (awaiting fetched ''Failed to create report'' (\<lambda>data.
          reading data ''status'' (\<lambda>st.
            if st = Str ''success''
            then reading data ''data'' (\<lambda>payload.
                   ([OnSuccess [payload]], onSuccess [payload]))
            else reading data ''message'' (\<lambda>m.
                   ([OnError [js_or m (Str ''Failed to create report'')]],
                    onError [js_or m (Str ''Failed to create report'')])))))"

definition deleteReport :: "fetched \<Rightarrow> callback \<Rightarrow> callback \<Rightarrow> settled" where
  "deleteReport fetched onSuccess onError =
     catch_clause onError
       (awaiting fetched ''Failed to delete report'' (\<lambda>data.
          reading data ''status'' (\<lambda>st.
            if st = Str ''success''
            then ([OnSuccess []], onSuccess [])
            else reading data ''message'' (\<lambda>m.
                   ([OnError [js_or m (Str ''Failed to delete report'')]],
                    onError [js_or m (Str ''Failed to delete report'')])))))"

section \<open>The client: the Scouting Report page and the report views\<close>

text \<open>
  The state \<open>handleCreateReport\<close> reads (\<open>src/unnamed/part_010\<close>): the selected video is
  the empty string until the user picks a menu item, whose value is the identity of a
  video; the three text fields; the videos fetched on mount; the signed-in user.
\<close>

record video =
  v_id :: js
  v_title :: js

record page =
  selectedVideo :: js
  reportTitle :: string
  teamName :: string
  opponentName :: string
  videos :: "video list"
  user :: js

record reportData =
  rd_title :: string
  rd_description :: string
  rd_video_id :: js
  rd_video_title :: js
  rd_team_name :: string
  rd_opponent_name :: string
  rd_user_id :: js

datatype effect = ShowError string | ShowSuccess string | WindowOpen string

text \<open>\<open>a === b\<close> where \<open>b\<close> is the result of \<open>parseInt\<close>: \<open>NaN\<close> equals nothing.\<close>

definition strict_equal :: "js \<Rightarrow> js \<Rightarrow> bool" where
  "strict_equal a b \<longleftrightarrow> a = b \<and> b \<noteq> NaN"

text \<open>
  \<open>handleCreateReport\<close> up to the call of \<open>createReport\<close>: the messages shown and the
  body handed to \<open>createReport\<close>, if any.  Reading \<open>user.id\<close> of a missing user throws
  inside the \<open>try\<close> block and ends in the \<open>catch\<close> clause.
\<close>

definition handleCreateReport :: "page \<Rightarrow> effect list \<times> reportData option" where
  "handleCreateReport st =
     (if \<not> truthy (selectedVideo st) then ([ShowError ''Please select a video''], None)
      else if \<not> truthy (Str (reportTitle st))
      then ([ShowError ''Please enter a report title''], None)
      else
        (let videoObj = find (\<lambda>v. strict_equal (v_id v) (parseInt (selectedVideo st))) (videos st)
         in case get_prop (user st) ''id'' of
              Inl e \<Rightarrow> ([ShowError ''Failed to create report''], None)
            | Inr uid \<Rightarrow>
                ([], Some \<lparr>
                   rd_title = reportTitle st,
                   rd_description =
                     ''Scouting report for ''
                       @ to_string (js_or (Str (teamName st)) (Str ''opponent team'')),
                   rd_video_id = parseInt (selectedVideo st),
                   rd_video_title = (case videoObj of Some v \<Rightarrow> v_title v | None \<Rightarrow> Str []),
                   rd_team_name = teamName st,
                   rd_opponent_name = opponentName st,
                   rd_user_id = uid\<rparr>)))"

text \<open>
  \<open>getStatusColor\<close> of \<open>ReportCard.jsx\<close> and of the details page
  (\<open>src/unnamed/part_015\<close>).
\<close>

definition getStatusColor :: "string \<Rightarrow> string" where
  "getStatusColor st =
     (if st = ''completed'' then ''success''
      else if st = ''processing'' then ''warning''
      else if st = ''queued'' then ''info''
      else if st = ''failed'' then ''error''
      else ''default'')"

text \<open>
  The download button of the card and of the details page is disabled by
  \<open>report.status !== 'completed' || !report.download_url\<close>; the handler of the card opens
  the address when there is one.  \<open>api\<close> is \<open>REACT_APP_SCOUTING_API_URL\<close>.
\<close>

definition download_disabled :: "report_dict \<Rightarrow> bool" where
  "download_disabled d \<longleftrightarrow>
     d_status d \<noteq> ''completed''
     \<or> \<not> (case d_download_url d of None \<Rightarrow> False | Some u \<Rightarrow> truthy (Str u))"

definition handleDownload :: "string \<Rightarrow> report_dict \<Rightarrow> effect" where
  "handleDownload api d =
     (case d_download_url d of
        None \<Rightarrow> ShowError ''Download not available yet''
      | Some u \<Rightarrow>
          if truthy (Str u) then WindowOpen (api @ u)
          else ShowError ''Download not available yet'')"

text \<open>\<open>report.analysis_results?.team_analysis || null\<close> of the details page.\<close>

definition teamAnalysis :: "report_dict \<Rightarrow> js" where
  "teamAnalysis d =
     (case d_analysis_results d of
        None \<Rightarrow> Null
      | Some (AnalysisDocument a) \<Rightarrow>
          (case get_prop a ''team_analysis'' of
             Inl e \<Rightarrow> Null
           | Inr t \<Rightarrow> js_or t Null))"

text \<open>
  The right column of the details page; the team summary of the left column is shown
  whenever \<open>teamAnalysis\<close> is truthy.
\<close>

datatype panel = PlayerAnalysis | BeingGenerated | GenerationFailed | NoAnalysisAvailable

definition right_column :: "report_dict \<Rightarrow> panel" where
  "right_column d =
     (if d_status d = ''completed'' \<and> truthy (teamAnalysis d) then PlayerAnalysis
      else if d_status d = ''processing'' \<or> d_status d = ''queued'' then BeingGenerated
      else if d_status d = ''failed'' then GenerationFailed
      else NoAnalysisAvailable)"

definition team_summary_shown :: "report_dict \<Rightarrow> bool" where
  "team_summary_shown d \<longleftrightarrow> truthy (teamAnalysis d)"

section \<open>Concrete inputs\<close>

text \<open>
  A creation request; collaborators that succeed; the same with the main backend out of
  reach, with an analysis that raises, with a renderer that raises, and at a later time;
  the database after one creation.
\<close>

definition request1 :: ReportCreate where
  "request1 = \<lparr>in_title = ''Game 1'', in_description = Some ''Scouting report for Lions'',
     in_video_id = 7, in_video_title = Some ''Lions at home'', in_team_name = Some ''Lions'',
     in_opponent_name = None, in_game_date = None, in_user_id = 1\<rparr>"

definition document1 :: analysis_document where
  "document1 =
     AnalysisDocument (Obj [(''team_analysis'', Obj [(''team_name'', Str ''Opponent Team'')])])"

definition env_ok :: services where
  "env_ok = \<lparr>
     client_get = (\<lambda>v. Inr \<lparr>status_code = 200,
        response_json = Inr (Obj [(''data'', Obj [(''id'', Num v), (''title'', Str ''Lions at home'')])])\<rparr>),
     analyze_video = (\<lambda>v. Inr document1),
     generate_pdf = (\<lambda>a r. Inr ''/reports/scouting_report.pdf''),
     datetime_now = 500\<rparr>"

definition env_offline :: services where
  "env_offline = env_ok\<lparr>client_get := (\<lambda>v. Inl (Error ''ConnectError''))\<rparr>"

definition env_no_analysis :: services where
  "env_no_analysis = env_ok\<lparr>analyze_video := (\<lambda>v. Inl (Error ''AnalysisFailed''))\<rparr>"

definition env_no_render :: services where
  "env_no_render = env_ok\<lparr>generate_pdf := (\<lambda>a r. Inl (Error ''RenderFailed''))\<rparr>"

definition env_later :: services where
  "env_later = env_ok\<lparr>datetime_now := 900\<rparr>"

definition db_queued :: database where
  "db_queued = fst (create_report \<lparr>reports = [], next_id = 1\<rparr> request1 100)"

text \<open>
  The service after the creation request, after the start of its task, and after the end
  of the task with collaborators that succeed.
\<close>

definition sys_queued :: system where
  "sys_queued = fst (create_report_route init request1 100)"

definition sys_processing :: system where
  "sys_processing = task_begin sys_queued 1"

definition sys_completed :: system where
  "sys_completed = task_end env_ok sys_processing (hd (in_flight sys_processing))"

text \<open>
  Four reports: three of owner 1, created at 100, 200 and 300, and one of owner 2 created
  at 250.
\<close>

definition request_of :: "nat \<Rightarrow> ReportCreate" where
  "request_of u = request1\<lparr>in_user_id := u\<rparr>"

definition db_four :: database where
  "db_four =
     fst (create_report
       (fst (create_report
         (fst (create_report
           (fst (create_report \<lparr>reports = [], next_id = 1\<rparr> (request_of 1) 100))
           (request_of 1) 200))
         (request_of 2) 250))
       (request_of 1) 300)"

text \<open>
  Exchanges with the service as the controllers see them: what the fetch gave, whether
  it counts as a failure (the request failed, the body did not parse, the response was
  not OK, or the body has no status \<open>success\<close>), and the \<open>message\<close> of a parsed body.
\<close>

definition failed_exchange :: "fetched \<Rightarrow> bool" where
  "failed_exchange fetched \<longleftrightarrow>
     (case fetched of
        Inl e \<Rightarrow> True
      | Inr response \<Rightarrow>
          \<not> ok response
          \<or> (case json response of
                Inl e \<Rightarrow> True
              | Inr data \<Rightarrow> get_prop data ''status'' \<noteq> Inr (Str ''success'')))"

definition body_message :: "fetched \<Rightarrow> js" where
  "body_message fetched =
     (case fetched of
        Inl e \<Rightarrow> Undefined
      | Inr response \<Rightarrow>
          (case json response of
             Inl e \<Rightarrow> Undefined
           | Inr data \<Rightarrow> (case get_prop data ''message'' of Inl e \<Rightarrow> Undefined | Inr m \<Rightarrow> m)))"

fun is_str :: "js \<Rightarrow> bool" where
  "is_str (Str s) = True"
| "is_str v = False"

definition quiet :: callback where
  "quiet args = None"

definition page1 :: page where
  "page1 = \<lparr>selectedVideo = Num 7, reportTitle = ''Game 1'', teamName = ''Lions'',
     opponentName = [], videos = [\<lparr>v_id = Num 7, v_title = Str ''Lions at home''\<rparr>],
     user = Obj [(''id'', Num 1)]\<rparr>"

text \<open>The rows a listing draws from: all of them, or those of one owner.\<close>

definition owned_reports :: "database \<Rightarrow> nat option \<Rightarrow> report list" where
  "owned_reports db owner =
     (case owner of None \<Rightarrow> reports db | Some u \<Rightarrow> filter (\<lambda>r. user_id r = u) (reports db))"

text \<open>
  What \<open>onError\<close> is to receive after a failed exchange, \<open>fallback\<close> being the
  controller's own text.  The message of the error, when the request fails, the body does
  not parse, or reading a property of the body throws.  For a response that is not OK, the
  text of \<open>new Error(data.message || fallback)\<close>, always a string.  For an OK response
  whose status could be read, \<open>data.message || fallback\<close> itself, not converted.
\<close>

definition error_argument :: "string \<Rightarrow> fetched \<Rightarrow> js" where
  "error_argument fallback fetched =
     (case fetched of
        Inl e \<Rightarrow> Str (message e)
      | Inr response \<Rightarrow>
          (case json response of
             Inl e \<Rightarrow> Str (message e)
           | Inr data \<Rightarrow>
               if ok response
               then (case get_prop data ''status'' of
                       Inl e \<Rightarrow> Str (message e)
                     | Inr st \<Rightarrow> js_or (body_message fetched) (Str fallback))
               else (case get_prop data ''message'' of
                       Inl e \<Rightarrow> Str (message e)
                     | Inr m \<Rightarrow> Str (to_string (js_or m (Str fallback))))))"

text \<open>
  What is asked of each controller, for callbacks that return: the promise is fulfilled,
  one call was made, and after a failed exchange the call is \<open>onError\<close> with exactly
  that argument.
\<close>

definition settles_well :: "string \<Rightarrow> fetched \<Rightarrow> settled \<Rightarrow> bool" where
  "settles_well fallback fetched result \<longleftrightarrow>
     snd result = None
     \<and> length (fst result) = 1
     \<and> (failed_exchange fetched \<longrightarrow>
          fst result = [OnError [error_argument fallback fetched]])"

text \<open>
  Two rows of one owner created at the same time, and two choices a query can make
  between them.
\<close>

definition db_tied :: database where
  "db_tied =
     fst (create_report
       (fst (create_report \<lparr>reports = [], next_id = 1\<rparr> (request_of 1) 100))
       (request_of 1) 100)"

definition tie_low :: "report \<Rightarrow> nat" where
  "tie_low r = id' r"

definition tie_high :: "report \<Rightarrow> nat" where
  "tie_high r = 10 - id' r"

section \<open>Looking rows up\<close>

lemma first_report_None: "first_report rs i = None \<longleftrightarrow> (\<forall>r \<in> set rs. id' r \<noteq> i)"
  by (induction rs) auto

lemma first_report_Some: "first_report rs i = Some r \<Longrightarrow> r \<in> set rs \<and> id' r = i"
  by (induction rs) (auto split: if_splits)

lemma first_report_map_upd:
  "first_report (map (\<lambda>x. if id' x = id' r then r else x) rs) (id' r) =
     (case first_report rs (id' r) of None \<Rightarrow> None | Some x \<Rightarrow> Some r)"
  by (induction rs) auto

lemma first_report_commit:
  "first_report (reports (commit_report db r)) (id' r) =
     (case first_report (reports db) (id' r) of None \<Rightarrow> None | Some x \<Rightarrow> Some r)"
  by (simp add: commit_report_def first_report_map_upd)

lemma db_queued_simp: "db_queued = \<lparr>reports = [\<lparr>id' = 1, title = ''Game 1'',
     description = Some ''Scouting report for Lions'', video_id = 7,
     video_title = Some ''Lions at home'', team_name = Some ''Lions'', opponent_name = None,
     game_date = None, user_id = 1, status = ''queued'', file_path = None,
     analysis_results = None, created_at = 100, updated_at = 100, completed_at = None\<rparr>],
     next_id = 2\<rparr>"
  by (simp add: db_queued_def create_report_def Report_defaults_def request1_def Let_def)

section \<open>One run of \<open>generate_report\<close>\<close>

text \<open>
  The row a run leaves behind, for a row that exists: the outcome of the pipeline decides
  between the two final commits.
\<close>

lemma generate_report_found:
  assumes "first_report (reports db) report_id = Some r"
  shows "first_report (reports (generate_report env db report_id)) report_id =
     Some (case run_pipeline env (r\<lparr>status := ''processing''\<rparr>) of
             Inr (results, pdf_path) \<Rightarrow>
               r\<lparr>status := ''completed'', file_path := Some pdf_path,
                 analysis_results := Some results, completed_at := Some (datetime_now env)\<rparr>
           | Inl e \<Rightarrow> r\<lparr>status := ''failed''\<rparr>)"
proof -
  have i: "id' r = report_id" using assms by (simp add: first_report_Some)
  let ?r1 = "r\<lparr>status := ''processing''\<rparr>"
  have b: "generate_report_begin db report_id = Some (commit_report db ?r1, ?r1)"
    using assms by (simp add: generate_report_begin_def Let_def)
  have f1: "first_report (reports (commit_report db ?r1)) report_id = Some ?r1"
    using first_report_commit [of db ?r1] assms i by simp
  show ?thesis
  proof (cases "run_pipeline env ?r1")
    case (Inl e)
    let ?r2 = "?r1\<lparr>status := ''failed''\<rparr>"
    have "first_report (reports (commit_report (commit_report db ?r1) ?r2)) (id' ?r2) = Some ?r2"
      using first_report_commit [of "commit_report db ?r1" ?r2] f1 i by simp
    then show ?thesis using Inl b i
      by (simp add: generate_report_def generate_report_end_def)
  next
    case (Inr p)
    obtain results pdf_path where p: "p = (results, pdf_path)" by (cases p)
    let ?r2 = "?r1\<lparr>status := ''completed'', file_path := Some pdf_path,
                 analysis_results := Some results, completed_at := Some (datetime_now env)\<rparr>"
    have "first_report (reports (commit_report (commit_report db ?r1) ?r2)) (id' ?r2) = Some ?r2"
      using first_report_commit [of "commit_report db ?r1" ?r2] f1 i by simp
    then show ?thesis using Inr p b i
      by (simp add: generate_report_def generate_report_end_def)
  qed
qed

lemma get_video_data_cases:
  "get_video_data env v = sample_video v
   \<or> (\<exists>response body. client_get env v = Inr response \<and> status_code response = 200
         \<and> response_json response = Inr body
         \<and> subscript body ''data'' = Inr (get_video_data env v))"
  by (auto simp: get_video_data_def split: sum.splits)

lemma get_video_data_out_of_reach:
  assumes "(\<exists>e. client_get env v = Inl e)
     \<or> (\<exists>response. client_get env v = Inr response
           \<and> (status_code response \<noteq> 200
               \<or> (\<exists>e. response_json response = Inl e)
               \<or> (\<exists>body e. response_json response = Inr body \<and> subscript body ''data'' = Inl e)))"
  shows "get_video_data env v = sample_video v"
  using assms by (auto simp: get_video_data_def split: sum.splits)

text \<open>
  Claim C3, as the code has it.  When the analysis or the rendering raises, the exception
  is caught inside \<open>generate_report\<close> and the job ends in status \<open>failed\<close> with
  nothing else changed: the artifact location, the analysis result and the completion
  time are as they were, so for a job run for the first time all three are still null and
  no partial result is stored; the completion time is not set on failure.  A metadata
  fetch that fails does not fail the job: \<open>get_video_data\<close> catches the exception and
  returns its sample dictionary, and the job ends \<open>completed\<close>, with all its results
  set, whenever analysis and rendering succeed.
\<close>

theorem generate_report_failure:
  assumes "first_report (reports db) report_id = Some r"
  shows "((\<exists>e. analyze_video env (get_video_data env (video_id r)) = Inl e)
          \<or> (\<exists>a e. analyze_video env (get_video_data env (video_id r)) = Inr a
                \<and> generate_pdf env a (r\<lparr>status := ''processing''\<rparr>) = Inl e)
        \<longrightarrow> first_report (reports (generate_report env db report_id)) report_id
              = Some (r\<lparr>status := ''failed''\<rparr>))
     \<and> ((\<exists>e. client_get env (video_id r) = Inl e)
          \<or> (\<exists>response. client_get env (video_id r) = Inr response
                \<and> (status_code response \<noteq> 200
                    \<or> (\<exists>e. response_json response = Inl e)
                    \<or> (\<exists>body e. response_json response = Inr body
                          \<and> subscript body ''data'' = Inl e)))
        \<longrightarrow> get_video_data env (video_id r) = sample_video (video_id r))
     \<and> (\<forall>a p. analyze_video env (get_video_data env (video_id r)) = Inr a
            \<and> generate_pdf env a (r\<lparr>status := ''processing''\<rparr>) = Inr p
        \<longrightarrow> first_report (reports (generate_report env db report_id)) report_id
              = Some (r\<lparr>status := ''completed'', file_path := Some p,
                       analysis_results := Some a,
                       completed_at := Some (datetime_now env)\<rparr>))"
proof (intro conjI impI allI)
  assume "(\<exists>e. analyze_video env (get_video_data env (video_id r)) = Inl e)
          \<or> (\<exists>a e. analyze_video env (get_video_data env (video_id r)) = Inr a
                \<and> generate_pdf env a (r\<lparr>status := ''processing''\<rparr>) = Inl e)"
  then obtain e where "run_pipeline env (r\<lparr>status := ''processing''\<rparr>) = Inl e"
    by (auto simp: run_pipeline_def)
  then show "first_report (reports (generate_report env db report_id)) report_id
              = Some (r\<lparr>status := ''failed''\<rparr>)"
    using generate_report_found [OF assms, of env] by simp
next
  assume "(\<exists>e. client_get env (video_id r) = Inl e)
          \<or> (\<exists>response. client_get env (video_id r) = Inr response
                \<and> (status_code response \<noteq> 200
                    \<or> (\<exists>e. response_json response = Inl e)
                    \<or> (\<exists>body e. response_json response = Inr body
                          \<and> subscript body ''data'' = Inl e)))"
  then show "get_video_data env (video_id r) = sample_video (video_id r)"
    by (rule get_video_data_out_of_reach)
next
  fix a p
  assume "analyze_video env (get_video_data env (video_id r)) = Inr a
            \<and> generate_pdf env a (r\<lparr>status := ''processing''\<rparr>) = Inr p"
  then have "run_pipeline env (r\<lparr>status := ''processing''\<rparr>) = Inr (a, p)"
    by (simp add: run_pipeline_def)
  then show "first_report (reports (generate_report env db report_id)) report_id
              = Some (r\<lparr>status := ''completed'', file_path := Some p,
                       analysis_results := Some a,
                       completed_at := Some (datetime_now env)\<rparr>)"
    using generate_report_found [OF assms, of env] by simp
qed

text \<open>
  The analysis raises for the queued job of \<open>db_queued\<close>; and the main backend is out
  of reach while analysis and rendering succeed.
\<close>

theorem generate_report_failure_witness:
  "first_report (reports db_queued) 1 = Some (hd (reports db_queued))
   \<and> analyze_video env_no_analysis (get_video_data env_no_analysis 7)
       = Inl (Error ''AnalysisFailed'')
   \<and> first_report (reports (generate_report env_no_analysis db_queued 1)) 1
       = Some ((hd (reports db_queued))\<lparr>status := ''failed''\<rparr>)
   \<and> client_get env_offline 7 = Inl (Error ''ConnectError'')
   \<and> get_video_data env_offline 7 = sample_video 7
   \<and> first_report (reports (generate_report env_offline db_queued 1)) 1
       = Some ((hd (reports db_queued))\<lparr>status := ''completed'',
            file_path := Some ''/reports/scouting_report.pdf'',
            analysis_results := Some document1, completed_at := Some 500\<rparr>)"
  using generate_report_failure [of db_queued 1 "hd (reports db_queued)" env_no_analysis]
    generate_report_failure [of db_queued 1 "hd (reports db_queued)" env_offline]
  by (simp add: db_queued_simp env_no_analysis_def env_offline_def env_ok_def)

text \<open>
  The claim as written asks for a completion time on failure.  Metadata and analysis
  succeed and the renderer raises: the job is \<open>failed\<close> and its completion time is null.
\<close>

theorem generate_report_failure_counterexample:
  "status (the (first_report (reports (generate_report env_no_render db_queued 1)) 1)) = ''failed''
   \<and> completed_at (the (first_report (reports (generate_report env_no_render db_queued 1)) 1)) = None"
  by (simp add: db_queued_simp generate_report_def generate_report_begin_def generate_report_end_def
      commit_report_def run_pipeline_def env_no_render_def env_ok_def Let_def)

section \<open>Running it again\<close>

text \<open>
  Claim C4, as the code has it.  \<open>generate_report\<close> is a no-op when no job has the
  identity.  It has no guard on the status: for a job that exists, whatever its status,
  the first commit stores it with status \<open>processing\<close>, the pipeline is run on it, and
  the last commit stores it with status \<open>completed\<close>, the new artifact location,
  analysis result and completion time when the pipeline succeeds, and with status
  \<open>failed\<close> and nothing else changed when it raises.
\<close>

theorem generate_report_no_status_guard:
  "(first_report (reports db) report_id = None \<longrightarrow> generate_report env db report_id = db)
   \<and> (\<forall>r. first_report (reports db) report_id = Some r \<longrightarrow>
         (\<exists>db1. generate_report_begin db report_id = Some (db1, r\<lparr>status := ''processing''\<rparr>)
            \<and> first_report (reports db1) report_id = Some (r\<lparr>status := ''processing''\<rparr>))
         \<and> first_report (reports (generate_report env db report_id)) report_id =
             Some (case run_pipeline env (r\<lparr>status := ''processing''\<rparr>) of
                     Inr (results, pdf_path) \<Rightarrow>
                       r\<lparr>status := ''completed'', file_path := Some pdf_path,
                         analysis_results := Some results,
                         completed_at := Some (datetime_now env)\<rparr>
                   | Inl e \<Rightarrow> r\<lparr>status := ''failed''\<rparr>))"
proof (intro conjI impI allI)
  assume "first_report (reports db) report_id = None"
  then show "generate_report env db report_id = db"
    by (simp add: generate_report_def generate_report_begin_def)
next
  fix r assume r: "first_report (reports db) report_id = Some r"
  have i: "id' r = report_id" using r by (simp add: first_report_Some)
  let ?r1 = "r\<lparr>status := ''processing''\<rparr>"
  have "generate_report_begin db report_id = Some (commit_report db ?r1, ?r1)"
    using r by (simp add: generate_report_begin_def Let_def)
  moreover have "first_report (reports (commit_report db ?r1)) report_id = Some ?r1"
    using first_report_commit [of db ?r1] r i by simp
  ultimately show "\<exists>db1. generate_report_begin db report_id = Some (db1, ?r1)
            \<and> first_report (reports db1) report_id = Some ?r1" by blast
next
  fix r assume r: "first_report (reports db) report_id = Some r"
  show "first_report (reports (generate_report env db report_id)) report_id =
             Some (case run_pipeline env (r\<lparr>status := ''processing''\<rparr>) of
                     Inr (results, pdf_path) \<Rightarrow>
                       r\<lparr>status := ''completed'', file_path := Some pdf_path,
                         analysis_results := Some results,
                         completed_at := Some (datetime_now env)\<rparr>
                   | Inl e \<Rightarrow> r\<lparr>status := ''failed''\<rparr>)"
    by (rule generate_report_found [OF r])
qed

lemma db_completed_simp: "generate_report env_ok db_queued 1 = \<lparr>reports = [\<lparr>id' = 1, title = ''Game 1'',
     description = Some ''Scouting report for Lions'', video_id = 7,
     video_title = Some ''Lions at home'', team_name = Some ''Lions'', opponent_name = None,
     game_date = None, user_id = 1, status = ''completed'',
     file_path = Some ''/reports/scouting_report.pdf'',
     analysis_results = Some document1, created_at = 100, updated_at = 100,
     completed_at = Some 500\<rparr>],
     next_id = 2\<rparr>"
  by (simp add: db_queued_simp generate_report_def generate_report_begin_def generate_report_end_def
      commit_report_def run_pipeline_def env_ok_def Let_def)

lemma run_pipeline_later:
  "run_pipeline env_later r = Inr (document1, ''/reports/scouting_report.pdf'')"
  "run_pipeline env_no_render r = Inl (Error ''RenderFailed'')"
  by (simp_all add: run_pipeline_def env_later_def env_no_render_def env_ok_def)

text \<open>
  No job with identity 1 in the empty database.  The job of \<open>db_queued\<close>, completed at
  500 by a first run, is set to \<open>processing\<close> by a second one, which completes it
  again at 900 or fails it when the renderer raises.
\<close>

theorem generate_report_no_status_guard_witness:
  "first_report (reports \<lparr>reports = [], next_id = 1\<rparr>) 1 = None
   \<and> generate_report env_ok \<lparr>reports = [], next_id = 1\<rparr> 1 = \<lparr>reports = [], next_id = 1\<rparr>
   \<and> status (the (first_report (reports (generate_report env_ok db_queued 1)) 1)) = ''completed''
   \<and> completed_at (the (first_report (reports (generate_report env_ok db_queued 1)) 1)) = Some 500
   \<and> (\<exists>db1. generate_report_begin (generate_report env_ok db_queued 1) 1
          = Some (db1, (the (first_report (reports (generate_report env_ok db_queued 1)) 1))
                         \<lparr>status := ''processing''\<rparr>)
        \<and> status (the (first_report (reports db1) 1)) = ''processing'')
   \<and> completed_at (the (first_report (reports
         (generate_report env_later (generate_report env_ok db_queued 1) 1)) 1)) = Some 900
   \<and> status (the (first_report (reports
         (generate_report env_no_render (generate_report env_ok db_queued 1) 1)) 1)) = ''failed''"
proof -
  let ?db = "generate_report env_ok db_queued 1"
  let ?r = "the (first_report (reports ?db) 1)"
  have f: "first_report (reports ?db) 1 = Some ?r" unfolding db_completed_simp by simp
  have a: "generate_report env_ok \<lparr>reports = [], next_id = 1\<rparr> 1 = \<lparr>reports = [], next_id = 1\<rparr>"
    using generate_report_no_status_guard [of "\<lparr>reports = [], next_id = 1\<rparr>" 1 env_ok] by simp
  have b: "\<exists>db1. generate_report_begin ?db 1 = Some (db1, ?r\<lparr>status := ''processing''\<rparr>)
        \<and> status (the (first_report (reports db1) 1)) = ''processing''"
    using generate_report_no_status_guard [of ?db 1 env_ok] f by auto
  have n: "datetime_now env_later = 900" by (simp add: env_later_def)
  have c: "completed_at (the (first_report (reports (generate_report env_later ?db 1)) 1)) = Some 900"
    using generate_report_no_status_guard [of ?db 1 env_later, THEN conjunct2, rule_format, OF f]
    by (simp add: run_pipeline_later n)
  have d: "status (the (first_report (reports (generate_report env_no_render ?db 1)) 1)) = ''failed''"
    using generate_report_no_status_guard [of ?db 1 env_no_render, THEN conjunct2, rule_format, OF f]
    by (simp add: run_pipeline_later)
  have e: "status ?r = ''completed''" "completed_at ?r = Some 500"
    unfolding db_completed_simp by simp_all
  have z: "first_report (reports \<lparr>reports = [], next_id = 1\<rparr>) 1 = None" by simp
  show ?thesis by (intro conjI z a e b c d)
qed

text \<open>
  The claim as written makes a second call on a completed job a no-op.  The job of
  \<open>db_queued\<close> is completed by a first run; a second run in which the renderer raises
  changes the database.
\<close>

theorem generate_report_no_status_guard_counterexample:
  "status (the (first_report (reports (generate_report env_ok db_queued 1)) 1)) = ''completed''
   \<and> generate_report env_no_render (generate_report env_ok db_queued 1) 1
       \<noteq> generate_report env_ok db_queued 1"
  unfolding db_completed_simp
  by (simp add: generate_report_def generate_report_begin_def generate_report_end_def
      commit_report_def run_pipeline_def env_no_render_def env_ok_def Let_def)

section \<open>What every reachable state satisfies\<close>

lemma sys_inv_init: "sys_inv init"
  by (simp add: sys_inv_def init_def)

lemma create_report_props:
  assumes "create_report db report_in clock = (db', r)"
  shows "reports db' = reports db @ [r]" "next_id db' = Suc (next_id db)"
    "id' r = next_id db" "status r = ''queued''" "row_nulls r"
  using assms by (auto simp: create_report_def Report_defaults_def Let_def row_nulls_def)

lemma create_report_route_props:
  assumes "create_report (sys_db s) report_in clock = (db', r)"
  shows "sys_db (fst (create_report_route s report_in clock)) = db'"
    "background_tasks (fst (create_report_route s report_in clock)) =
       background_tasks s @ [next_id (sys_db s)]"
    "in_flight (fst (create_report_route s report_in clock)) = in_flight s"
    "files (fst (create_report_route s report_in clock)) = files s"
  using assms create_report_props(3) [OF assms] by (simp_all add: create_report_route_def)

lemma sys_inv_create:
  assumes "sys_inv s"
  shows "sys_inv (fst (create_report_route s report_in clock))"
proof -
  obtain db' r where c: "create_report (sys_db s) report_in clock = (db', r)"
    by (cases "create_report (sys_db s) report_in clock")
  note p = create_report_props [OF c]
  note t = create_report_route_props [OF c]
  let ?n = "next_id (sys_db s)"
  from assms have d: "distinct (map id' (reports (sys_db s)))"
    and l: "\<And>x. x \<in> set (reports (sys_db s)) \<Longrightarrow> id' x < ?n"
    and ro: "\<And>x. x \<in> set (reports (sys_db s)) \<Longrightarrow> row_ok s x"
    and dt: "distinct (background_tasks s)"
    and lt: "\<And>i. i \<in> set (background_tasks s) \<Longrightarrow> i < ?n"
    and df: "distinct (map id' (in_flight s))"
    and fo: "\<And>x. x \<in> set (in_flight s) \<Longrightarrow> flight_ok s x"
    by (auto simp: sys_inv_def)
  have 1: "distinct (map id' (reports db'))"
    using d l p by fastforce
  have 2: "id' x < next_id db' \<and> row_ok (fst (create_report_route s report_in clock)) x"
    if "x \<in> set (reports db')" for x
  proof (cases "x = r")
    case True
    then show ?thesis using p by (simp add: row_ok_def t)
  next
    case False
    then have x: "x \<in> set (reports (sys_db s))" using that p by simp
    then have "id' x \<noteq> ?n" using l by fastforce
    then show ?thesis using ro [OF x] l [OF x] p by (simp add: row_ok_def t)
  qed
  have 3: "distinct (background_tasks s @ [?n])" using dt lt by fastforce
  have 4: "i < next_id db'" if "i \<in> set (background_tasks s @ [?n])" for i
    using that lt p by fastforce
  have 5: "flight_ok (fst (create_report_route s report_in clock)) x"
    if "x \<in> set (in_flight s)" for x
    using fo [OF that] p by (auto simp: flight_ok_def t)
  show ?thesis unfolding sys_inv_def t using 1 2 3 4 5 df by blast
qed


lemma sys_invD:
  assumes "sys_inv s"
  shows "distinct (map id' (reports (sys_db s)))"
    and "\<And>x. x \<in> set (reports (sys_db s)) \<Longrightarrow> id' x < next_id (sys_db s)"
    and "\<And>x. x \<in> set (reports (sys_db s)) \<Longrightarrow> row_ok s x"
    and "distinct (background_tasks s)"
    and "\<And>i. i \<in> set (background_tasks s) \<Longrightarrow> i < next_id (sys_db s)"
    and "distinct (map id' (in_flight s))"
    and "\<And>x. x \<in> set (in_flight s) \<Longrightarrow> flight_ok s x"
  using assms by (auto simp: sys_inv_def)

lemma commit_report_ids: "map id' (reports (commit_report db r)) = map id' (reports db)"
  by (simp add: commit_report_def comp_def)

lemma commit_report_next_id: "next_id (commit_report db r) = next_id db"
  by (simp add: commit_report_def)

lemma commit_report_row:
  assumes "x \<in> set (reports (commit_report db r))"
  shows "(x = r \<and> id' r \<in> id' ` set (reports db)) \<or> (x \<in> set (reports db) \<and> id' x \<noteq> id' r)"
  using assms by (auto simp: commit_report_def image_iff split: if_splits) metis+

lemma sys_inv_begin:
  assumes "sys_inv s" and pend: "report_id \<in> set (background_tasks s)"
  shows "sys_inv (task_begin s report_id)"
proof (cases "first_report (reports (sys_db s)) report_id")
  case None
  let ?t = "s\<lparr>background_tasks := remove1 report_id (background_tasks s)\<rparr>"
  have t: "task_begin s report_id = ?t"
    using None by (simp add: task_begin_def generate_report_begin_def)
  note i = sys_invD [OF assms(1)]
  have no: "id' x \<noteq> report_id" if "x \<in> set (reports (sys_db s))" for x
    using None that by (simp add: first_report_None)
  have 2: "row_ok ?t x" if "x \<in> set (reports (sys_db s))" for x
    using i(3) [OF that] no [OF that] i(4) by (simp add: row_ok_def)
  have 5: "flight_ok ?t x" if "x \<in> set (in_flight s)" for x
    using i(7) [OF that] i(4) by (auto simp: flight_ok_def)
  show ?thesis unfolding t sys_inv_def using i 2 5 by auto
next
  case (Some r)
  note i = sys_invD [OF assms(1)]
  have r: "r \<in> set (reports (sys_db s))" "id' r = report_id"
    using Some by (simp_all add: first_report_Some)
  have q: "status r = ''queued''" "row_nulls r"
    using i(3) [OF r(1)] pend r(2) by (simp_all add: row_ok_def)
  let ?r1 = "r\<lparr>status := ''processing''\<rparr>"
  let ?t = "s\<lparr>sys_db := commit_report (sys_db s) ?r1,
              background_tasks := remove1 report_id (background_tasks s),
              in_flight := ?r1 # in_flight s\<rparr>"
  have t: "task_begin s report_id = ?t"
    using Some by (simp add: task_begin_def generate_report_begin_def Let_def)
  have nf: "report_id \<notin> id' ` set (in_flight s)"
    using i(7) pend by (auto simp: flight_ok_def)
  have nr: "report_id \<notin> set (remove1 report_id (background_tasks s))"
    using i(4) by simp
  have 1: "distinct (map id' (reports (sys_db ?t)))"
    using i(1) by (simp add: commit_report_ids)
  have 2: "id' x < next_id (sys_db ?t) \<and> row_ok ?t x" if "x \<in> set (reports (sys_db ?t))" for x
  proof -
    from that have "x \<in> set (reports (commit_report (sys_db s) ?r1))" by simp
    from commit_report_row [OF this]
    show ?thesis
    proof
      assume "x = ?r1 \<and> id' ?r1 \<in> id' ` set (reports (sys_db s))"
      then show ?thesis using i(2) [OF r(1)] r(2) nr
        by (simp add: row_ok_def commit_report_next_id)
    next
      assume a: "x \<in> set (reports (sys_db s)) \<and> id' x \<noteq> id' ?r1"
      then have x: "x \<in> set (reports (sys_db s))" and ne: "id' x \<noteq> report_id"
        using r(2) by simp_all
      have "id' x \<in> set (remove1 report_id (background_tasks s))
              \<longleftrightarrow> id' x \<in> set (background_tasks s)"
        using ne i(4) by simp
      then show ?thesis using i(2) [OF x] i(3) [OF x] ne r(2)
        by (auto simp: row_ok_def commit_report_next_id)
    qed
  qed
  have 3: "distinct (background_tasks ?t)" using i(4) by simp
  have 4: "j < next_id (sys_db ?t)" if "j \<in> set (background_tasks ?t)" for j
    using that i(5) [of j] by (auto simp: commit_report_next_id dest: notin_set_remove1)
  have 5: "distinct (map id' (in_flight ?t))" using i(6) nf r(2) by simp
  have 6: "flight_ok ?t x" if "x \<in> set (in_flight ?t)" for x
  proof (cases "x = ?r1")
    case True
    then show ?thesis using q i(2) [OF r(1)] r(2) nr
      by (simp add: flight_ok_def row_nulls_def commit_report_next_id)
  next
    case False
    then have "x \<in> set (in_flight s)" using that by simp
    from i(7) [OF this] show ?thesis
      by (auto simp: flight_ok_def commit_report_next_id dest: notin_set_remove1)
  qed
  show ?thesis unfolding t sys_inv_def using 1 2 3 4 5 6 by blast
qed


lemma generate_report_end_final:
  "generate_report_end env db r = commit_report db (final_row env r)"
  by (simp add: generate_report_end_def final_row_def split: sum.splits prod.splits)

lemma final_row_id: "id' (final_row env r) = id' r"
  by (simp add: final_row_def split: sum.splits prod.splits)

lemma final_row_done: "row_nulls r \<Longrightarrow> row_done (final_row env r)"
  by (auto simp: final_row_def row_done_def row_nulls_def split: sum.splits prod.splits)

lemma final_row_status:
  "status (final_row env r) = ''completed'' \<or> status (final_row env r) = ''failed''"
  by (simp add: final_row_def split: sum.splits prod.splits)

lemma sys_inv_end:
  assumes "sys_inv s" and fl: "r \<in> set (in_flight s)"
  shows "sys_inv (task_end env s r)"
proof -
  note i = sys_invD [OF assms(1)]
  let ?r2 = "final_row env r"
  let ?t = "task_end env s r"
  have t: "sys_db ?t = commit_report (sys_db s) ?r2" "background_tasks ?t = background_tasks s"
    "in_flight ?t = remove1 r (in_flight s)"
    by (simp_all add: task_end_def generate_report_end_final)
  have f: "status r = ''processing''" "row_nulls r" "id' r < next_id (sys_db s)"
    "id' r \<notin> set (background_tasks s)"
    using i(7) [OF fl] by (simp_all add: flight_ok_def)
  have dfl: "distinct (in_flight s)" "inj_on id' (set (in_flight s))"
    using i(6) by (simp_all add: distinct_map)
  have gone: "id' r \<notin> id' ` set (remove1 r (in_flight s))"
  proof
    assume "id' r \<in> id' ` set (remove1 r (in_flight s))"
    then obtain y where y: "y \<in> set (remove1 r (in_flight s))" "id' y = id' r" by auto
    then have "y \<in> set (in_flight s)" by (meson notin_set_remove1)
    then have "y = r" using y(2) fl dfl(2) by (auto dest: inj_onD)
    then show False using y(1) dfl(1) by simp
  qed
  have 1: "distinct (map id' (reports (sys_db ?t)))"
    using i(1) by (simp add: t commit_report_ids)
  have 2: "id' x < next_id (sys_db ?t) \<and> row_ok ?t x" if "x \<in> set (reports (sys_db ?t))" for x
  proof -
    from that have "x \<in> set (reports (commit_report (sys_db s) ?r2))" by (simp add: t)
    from commit_report_row [OF this]
    show ?thesis
    proof
      assume "x = ?r2 \<and> id' ?r2 \<in> id' ` set (reports (sys_db s))"
      then show ?thesis using f gone final_row_done [OF f(2), of env]
        by (simp add: row_ok_def t commit_report_next_id final_row_id)
    next
      assume a: "x \<in> set (reports (sys_db s)) \<and> id' x \<noteq> id' ?r2"
      then have x: "x \<in> set (reports (sys_db s))" and ne: "id' x \<noteq> id' r"
        by (simp_all add: final_row_id)
      have m: "id' x \<in> id' ` set (remove1 r (in_flight s)) \<longleftrightarrow> id' x \<in> id' ` set (in_flight s)"
      proof
        assume "id' x \<in> id' ` set (remove1 r (in_flight s))"
        then show "id' x \<in> id' ` set (in_flight s)"
          using set_remove1_subset [of r "in_flight s"] by blast
      next
        assume "id' x \<in> id' ` set (in_flight s)"
        then obtain y where y: "y \<in> set (in_flight s)" "id' y = id' x" by auto
        then have "y \<noteq> r" using ne by auto
        then have "y \<in> set (remove1 r (in_flight s))" using y(1) by simp
        then show "id' x \<in> id' ` set (remove1 r (in_flight s))"
          using y(2) by (metis imageI)
      qed
      have "x \<noteq> r" using ne by blast
      then have n: "x \<in> set (in_flight s) \<Longrightarrow> x \<in> set (remove1 r (in_flight s))"
        by simp
      show ?thesis using i(2) [OF x] i(3) [OF x] m n
        by (auto simp: row_ok_def t commit_report_next_id)
    qed
  qed
  have 4: "j < next_id (sys_db ?t)" if "j \<in> set (background_tasks ?t)" for j
    using that i(5) [of j] by (simp add: t commit_report_next_id)
  have 5: "distinct (map id' (in_flight ?t))"
    using dfl by (simp add: t distinct_map inj_on_def)
  have 6: "flight_ok ?t x" if "x \<in> set (in_flight ?t)" for x
  proof -
    from that have "x \<in> set (in_flight s)"
      using set_remove1_subset [of r "in_flight s"] by (auto simp: t)
    from i(7) [OF this] show ?thesis by (simp add: flight_ok_def t commit_report_next_id)
  qed
  show ?thesis unfolding sys_inv_def using 1 2 i(4) 4 5 6 by (simp add: t)
qed

lemma delete_report_route_props:
  "background_tasks (fst (delete_report_route s report_id)) = background_tasks s"
  "in_flight (fst (delete_report_route s report_id)) = in_flight s"
  "files (fst (delete_report_route s report_id)) = files s"
  "next_id (sys_db (fst (delete_report_route s report_id))) = next_id (sys_db s)"
  "reports (sys_db (fst (delete_report_route s report_id))) =
     filter (\<lambda>x. id' x \<noteq> report_id) (reports (sys_db s))"
proof -
  have "filter (\<lambda>x. id' x \<noteq> report_id) rs = rs" if "first_report rs report_id = None" for rs
    using that by (induction rs) (auto split: if_splits)
  then show "reports (sys_db (fst (delete_report_route s report_id))) =
     filter (\<lambda>x. id' x \<noteq> report_id) (reports (sys_db s))"
    by (auto simp: delete_report_route_def delete_report_def dest: first_report_Some
        split: option.splits)
qed (auto simp: delete_report_route_def delete_report_def split: option.splits)

lemma row_ok_cong:
  "background_tasks t = background_tasks s \<Longrightarrow> in_flight t = in_flight s \<Longrightarrow> row_ok t x = row_ok s x"
  by (simp add: row_ok_def)

lemma sys_inv_delete:
  assumes "sys_inv s"
  shows "sys_inv (fst (delete_report_route s report_id))"
proof -
  note i = sys_invD [OF assms]
  note t = delete_report_route_props [of s report_id]
  have 2: "row_ok (fst (delete_report_route s report_id)) x = row_ok s x" for x
    by (rule row_ok_cong) (simp_all add: t)
  show ?thesis unfolding sys_inv_def t 2 using i
    by (auto simp: distinct_map_filter flight_ok_def t)
qed

lemma sys_inv_step: "step s t \<Longrightarrow> sys_inv s \<Longrightarrow> sys_inv t"
  by (induction rule: step.induct)
     (simp_all add: sys_inv_create sys_inv_begin sys_inv_end sys_inv_delete)

lemma reachable_inv: "reachable s \<Longrightarrow> sys_inv s"
  by (induction rule: reachable.induct) (simp_all add: sys_inv_init sys_inv_step)

section \<open>Statuses over the steps of the service\<close>

lemma same_id_same_row:
  assumes "distinct (map id' rs)" "a \<in> set rs" "b \<in> set rs" "id' a = id' b"
  shows "a = b"
  using assms by (auto simp: distinct_map dest: inj_onD)

lemma row_status_cases:
  assumes "sys_inv s" "r \<in> set (reports (sys_db s))"
  shows "(status r = ''queued'' \<and> row_nulls r) \<or> (status r = ''processing'' \<and> row_nulls r)
         \<or> row_done r"
proof -
  note i = sys_invD [OF assms(1)]
  from i(3) [OF assms(2)] show ?thesis
    using i(7) [of r] by (auto simp: row_ok_def flight_ok_def split: if_splits)
qed

lemma step_row:
  assumes inv: "sys_inv s" and st: "step s t"
    and r: "r \<in> set (reports (sys_db s))" and r': "r' \<in> set (reports (sys_db t))"
    and same: "id' r' = id' r"
  shows "r' = r
       \<or> (status r = ''queued'' \<and> status r' = ''processing'')
       \<or> (status r = ''processing'' \<and> (status r' = ''completed'' \<or> status r' = ''failed''))"
proof -
  note i = sys_invD [OF inv]
  from st show ?thesis
  proof (cases rule: step.cases)
    case (step_create report_in clock)
    obtain db' n where c: "create_report (sys_db s) report_in clock = (db', n)"
      by (cases "create_report (sys_db s) report_in clock")
    note p = create_report_props [OF c]
    note q = create_report_route_props [OF c]
    have "r' \<in> set (reports (sys_db s)) \<or> r' = n" using r' step_create p q by auto
    moreover have "r' \<noteq> n" using i(2) [OF r] same p(3) by auto
    ultimately show ?thesis using same_id_same_row [OF i(1) _ r same] by blast
  next
    case (step_begin report_id)
    show ?thesis
    proof (cases "first_report (reports (sys_db s)) report_id")
      case None
      then have "sys_db t = sys_db s"
        using step_begin by (simp add: task_begin_def generate_report_begin_def)
      then show ?thesis using same_id_same_row [OF i(1) _ r same] r' by simp
    next
      case (Some r0)
      have r0: "r0 \<in> set (reports (sys_db s))" "id' r0 = report_id"
        using Some by (simp_all add: first_report_Some)
      have q: "status r0 = ''queued''"
        using i(3) [OF r0(1)] step_begin(2) r0(2) by (simp add: row_ok_def)
      let ?r1 = "r0\<lparr>status := ''processing''\<rparr>"
      have "sys_db t = commit_report (sys_db s) ?r1"
        using Some step_begin by (simp add: task_begin_def generate_report_begin_def Let_def)
      then have "r' \<in> set (reports (commit_report (sys_db s) ?r1))" using r' by simp
      from commit_report_row [OF this] show ?thesis
      proof
        assume a: "r' = ?r1 \<and> id' ?r1 \<in> id' ` set (reports (sys_db s))"
        then have "id' r = id' r0" using same by simp
        then have "r = r0" using same_id_same_row [OF i(1) r r0(1)] by simp
        then show ?thesis using a q by simp
      next
        assume "r' \<in> set (reports (sys_db s)) \<and> id' r' \<noteq> id' ?r1"
        then show ?thesis using same_id_same_row [OF i(1) _ r same] by blast
      qed
    qed
  next
    case (step_end r0 env)
    have f: "id' r0 \<notin> set (background_tasks s)"
      using i(7) [OF step_end(2)] by (simp add: flight_ok_def)
    have "sys_db t = commit_report (sys_db s) (final_row env r0)"
      using step_end by (simp add: task_end_def generate_report_end_final)
    then have "r' \<in> set (reports (commit_report (sys_db s) (final_row env r0)))"
      using r' by simp
    from commit_report_row [OF this] show ?thesis
    proof
      assume a: "r' = final_row env r0
                 \<and> id' (final_row env r0) \<in> id' ` set (reports (sys_db s))"
      then have e: "id' r = id' r0" using same by (simp add: final_row_id)
      then have "r \<in> set (in_flight s)"
        using i(3) [OF r] f step_end(2) by (auto simp: row_ok_def split: if_splits)
      then have "status r = ''processing''" using i(7) by (simp add: flight_ok_def)
      then show ?thesis using a final_row_status [of env r0] by auto
    next
      assume "r' \<in> set (reports (sys_db s)) \<and> id' r' \<noteq> id' (final_row env r0)"
      then show ?thesis using same_id_same_row [OF i(1) _ r same] by blast
    qed
  next
    case (step_delete report_id)
    then have "r' \<in> set (reports (sys_db s))"
      using r' by (simp add: delete_report_route_props)
    then show ?thesis using same_id_same_row [OF i(1) _ r same] by blast
  qed
qed

lemma statuses_simps:
  "''queued'' \<in> statuses" "''processing'' \<in> statuses" "''completed'' \<in> statuses"
  "''failed'' \<in> statuses"
  by (simp_all add: statuses_def)

lemma getStatusColor_known: "st \<in> statuses \<Longrightarrow> getStatusColor st \<noteq> ''default''"
  by (auto simp: statuses_def getStatusColor_def)

lemma row_status_in:
  assumes "sys_inv s" "r \<in> set (reports (sys_db s))"
  shows "status r \<in> statuses"
  using row_status_cases [OF assms] by (auto simp: row_done_def statuses_simps)

text \<open>
  Claim C1.  In every state the service reaches, the status of a job is one of \<open>queued\<close>,
  \<open>processing\<close>, \<open>completed\<close>, \<open>failed\<close>, and the client has a colour for it.  Over
  one step of the service a job that is still in the table keeps its status or follows an
  arrow of the diagram \<open>queued \<rightarrow> processing \<rightarrow> (completed | failed)\<close>; a completed or
  failed job is left exactly as it is; a job that is not queued is not queued afterwards.
  The steps are those of the routes, which start \<open>generate_report\<close> once for each job
  they create; \<open>update_report\<close> of the service has no route.
\<close>

theorem status_state_machine:
  assumes "reachable s" and "step s t"
    and "r \<in> set (reports (sys_db s))" and "r' \<in> set (reports (sys_db t))"
    and "id' r' = id' r"
  shows "status r \<in> statuses \<and> status r' \<in> statuses
       \<and> transition_ok (status r) (status r')
       \<and> (status r = ''completed'' \<or> status r = ''failed'' \<longrightarrow> r' = r)
       \<and> (status r \<noteq> ''queued'' \<longrightarrow> status r' \<noteq> ''queued'')
       \<and> getStatusColor (status r) \<noteq> ''default''"
proof -
  have inv: "sys_inv s" using assms(1) by (rule reachable_inv)
  have inv': "sys_inv t" using inv assms(2) by (simp add: sys_inv_step)
  have a: "status r \<in> statuses" using row_status_in [OF inv assms(3)] .
  have b: "status r' \<in> statuses" using row_status_in [OF inv' assms(4)] .
  from step_row [OF inv assms(2) assms(3) assms(4) assms(5)]
  have c: "transition_ok (status r) (status r')"
    and d: "status r = ''completed'' \<or> status r = ''failed'' \<longrightarrow> r' = r"
    and e: "status r \<noteq> ''queued'' \<longrightarrow> status r' \<noteq> ''queued''"
    by (auto simp: transition_ok_def)
  show ?thesis using a b c d e getStatusColor_known [OF a] by blast
qed

text \<open>
  Claim C2.  In every state the service reaches, a job is completed if and only if its
  artifact location, its analysis result and its completion time are all set, and a job
  in any other status has no artifact location and no analysis result.
\<close>

theorem completed_iff_results:
  assumes "reachable s" and "r \<in> set (reports (sys_db s))"
  shows "(status r = ''completed'' \<longleftrightarrow>
            file_path r \<noteq> None \<and> analysis_results r \<noteq> None \<and> completed_at r \<noteq> None)
       \<and> (status r \<noteq> ''completed'' \<longrightarrow> file_path r = None \<and> analysis_results r = None)"
  using row_status_cases [OF reachable_inv [OF assms(1)] assms(2)]
  by (auto simp: row_done_def row_nulls_def)

section \<open>Creation, reading and deletion through the routes\<close>

lemma first_report_append:
  "first_report (xs @ ys) i =
     (case first_report xs i of None \<Rightarrow> first_report ys i | Some r \<Rightarrow> Some r)"
  by (induction xs) auto

text \<open>
  Claim C5.  The creation route stores the new job with status \<open>queued\<close> and answers
  with its identity; the pipeline is only added as a background task (no task is started
  and no file is written by the route, whose answer does not depend on the
  collaborators).  Whatever the collaborators do when the task runs, the run ends with
  the job completed or failed: a failure is recorded in the job and nowhere else.
\<close>

theorem create_report_route_queued:
  assumes "reachable s" and "create_report_route s report_in clock = (t, answer)"
  shows "answer = ((next_id (sys_db s), ''queued''), ''Report creation initiated'', 202)
     \<and> (\<exists>r. first_report (reports (sys_db t)) (next_id (sys_db s)) = Some r
            \<and> status r = ''queued'' \<and> row_nulls r)
     \<and> background_tasks t = background_tasks s @ [next_id (sys_db s)]
     \<and> in_flight t = in_flight s \<and> files t = files s
     \<and> (\<forall>env. \<exists>r'.
           first_report (reports (generate_report env (sys_db t) (next_id (sys_db s))))
             (next_id (sys_db s)) = Some r'
           \<and> (status r' = ''completed'' \<or> status r' = ''failed''))"
proof -
  note i = sys_invD [OF reachable_inv [OF assms(1)]]
  obtain db' n where c: "create_report (sys_db s) report_in clock = (db', n)"
    by (cases "create_report (sys_db s) report_in clock")
  note p = create_report_props [OF c]
  have t: "t = fst (create_report_route s report_in clock)" using assms(2) by simp
  note q = create_report_route_props [OF c, folded t]
  have a: "answer = ((next_id (sys_db s), ''queued''), ''Report creation initiated'', 202)"
    using assms(2) c p by (auto simp: create_report_route_def)
  have "first_report (reports (sys_db s)) (next_id (sys_db s)) = None"
    using i(2) by (fastforce simp: first_report_None)
  then have f: "first_report (reports (sys_db t)) (next_id (sys_db s)) = Some n"
    using p by (simp add: q first_report_append)
  have g: "\<exists>r'. first_report (reports (generate_report env (sys_db t) (next_id (sys_db s))))
             (next_id (sys_db s)) = Some r'
           \<and> (status r' = ''completed'' \<or> status r' = ''failed'')" for env
    using generate_report_found [OF f, of env]
    by (cases "run_pipeline env (n\<lparr>status := ''processing''\<rparr>)") auto
  show ?thesis using a f p q g by blast
qed

lemma get_report_Some:
  assumes "get_report db report_id = Some d"
  shows "\<exists>r \<in> set (reports db). d = (report_summary r)\<lparr>d_analysis_results := analysis_results r\<rparr>"
  using assms by (auto simp: get_report_def split: option.splits dest: first_report_Some)

lemma get_reports_rows:
  assumes "d \<in> set (get_reports tie db owner skip limit)"
  shows "\<exists>r \<in> set (reports db). d = report_summary r"
proof -
  let ?m = "case owner of None \<Rightarrow> reports db | Some u \<Rightarrow> filter (\<lambda>r. user_id r = u) (reports db)"
  from assms obtain r where r: "r \<in> set (take limit (drop skip (order_by_created_at_desc tie ?m)))"
    "d = report_summary r" by (auto simp: get_reports_def Let_def)
  then have "r \<in> set (order_by_created_at_desc tie ?m)"
    by (meson in_set_dropD in_set_takeD)
  then have "r \<in> set ?m" by (simp add: order_by_created_at_desc_def)
  then have "r \<in> set (reports db)" by (cases owner) auto
  then show ?thesis using r(2) by blast
qed

text \<open>
  Claim C6.  For a dictionary the service returns for a job, from \<open>get_report\<close> or from
  \<open>get_reports\<close>, whose status is not \<open>completed\<close>: it carries no analysis document
  and no download address, and the client disables the download button, answers a
  download request with a message, and shows neither the team summary nor the player
  analysis.
\<close>

theorem results_only_when_completed:
  assumes "reachable s"
    and "get_report (sys_db s) report_id = Some d
         \<or> d \<in> set (get_reports tie (sys_db s) owner skip limit)"
    and "d_status d \<noteq> ''completed''"
  shows "d_analysis_results d = None \<and> d_download_url d = None
     \<and> download_disabled d
     \<and> handleDownload api d = ShowError ''Download not available yet''
     \<and> \<not> team_summary_shown d
     \<and> right_column d \<noteq> PlayerAnalysis"
proof -
  have inv: "sys_inv s" using assms(1) by (rule reachable_inv)
  from assms(2) obtain r where r: "r \<in> set (reports (sys_db s))"
    and d: "d = (report_summary r)\<lparr>d_analysis_results := analysis_results r\<rparr>
            \<or> d = report_summary r"
    using get_report_Some get_reports_rows by blast
  have st: "status r \<noteq> ''completed''" using assms(3) d by (auto simp: report_summary_def)
  have "analysis_results r = None"
    using row_status_cases [OF inv r] st by (auto simp: row_done_def row_nulls_def)
  then have a: "d_analysis_results d = None" using d by (auto simp: report_summary_def)
  have u: "d_download_url d = None" using d st by (auto simp: report_summary_def download_url_def)
  show ?thesis using a u assms(3)
    by (simp add: download_disabled_def handleDownload_def team_summary_shown_def
        teamAnalysis_def right_column_def)
qed

text \<open>
  Claim C8, as the code has it.  After a delete request that succeeded, reading the same
  identity answers 404 and the lookup of its artifact path gives nothing; the delete
  removes the row only, the stored files are left as they are.
\<close>

theorem delete_then_not_found:
  assumes "delete_report_route s report_id = (t, Inr answer)"
  shows "get_report_route t report_id = Inl (HTTPException 404 ''Report not found'')
     \<and> get_report_file_path (sys_db t) report_id = None
     \<and> files t = files s"
proof -
  have t: "t = fst (delete_report_route s report_id)" using assms by simp
  have "first_report (reports (sys_db t)) report_id = None"
    unfolding t by (simp add: delete_report_route_props first_report_None)
  then show ?thesis
    by (simp add: get_report_route_def get_report_def get_report_file_path_def t
        delete_report_route_props)
qed

section \<open>Listing\<close>

lemma get_reports_owned:
  "get_reports tie db owner skip limit =
     map report_summary
       (take limit (drop skip (order_by_created_at_desc tie (owned_reports db owner))))"
  by (simp add: get_reports_def owned_reports_def Let_def)

lemma order_desc_sorted:
  "sorted_wrt (\<lambda>a b. created_at b \<le> created_at a) (order_by_created_at_desc tie rs)"
proof -
  have "sorted (map created_at (sort_key created_at (sort_key tie rs)))" by (rule sorted_sort_key)
  then have "sorted_wrt (\<lambda>a b. created_at a \<le> created_at b) (sort_key created_at (sort_key tie rs))"
    by (simp add: sorted_map)
  then show ?thesis by (simp add: order_by_created_at_desc_def sorted_wrt_rev)
qed

lemma order_desc_mset: "mset (order_by_created_at_desc tie rs) = mset rs"
  by (simp add: order_by_created_at_desc_def)

lemma order_desc_set: "set (order_by_created_at_desc tie rs) = set rs"
  by (simp add: order_by_created_at_desc_def)

lemma order_desc_length: "length (order_by_created_at_desc tie rs) = length rs"
  by (simp add: order_by_created_at_desc_def)

lemma report_summary_created: "d_created_at (report_summary r) = created_at r"
  by (simp add: report_summary_def)

lemma report_summary_id: "d_id (report_summary r) = id' r"
  by (simp add: report_summary_def)

text \<open>Rows with pairwise different keys have one descending order only.\<close>

lemma sorted_desc_unique:
  fixes f :: "'a \<Rightarrow> nat"
  assumes m: "mset xs = mset ys"
    and sx: "sorted_wrt (\<lambda>a b. f b \<le> f a) xs" and sy: "sorted_wrt (\<lambda>a b. f b \<le> f a) ys"
    and d: "distinct (map f ys)"
  shows "xs = ys"
proof -
  have s: "set xs = set ys" using m by (rule mset_eq_setD)
  have "mset (map f xs) = mset (map f ys)" using m by simp
  then have dx: "distinct (map f xs)" using d by (metis mset_eq_imp_distinct_iff)
  have "sorted_wrt (\<lambda>a b. f a \<le> f b) (rev xs)" using sx by (simp add: sorted_wrt_rev)
  then have ax: "sorted (map f (rev xs))" by (simp only: sorted_map)
  have "sorted_wrt (\<lambda>a b. f a \<le> f b) (rev ys)" using sy by (simp add: sorted_wrt_rev)
  then have ay: "sorted (map f (rev ys))" by (simp only: sorted_map)
  have "map f (rev xs) = map f (rev ys)"
    using ax ay dx d s by (intro sorted_distinct_set_unique) (simp_all add: distinct_map)
  moreover have "inj_on f (set (rev xs) \<union> set (rev ys))" using d s by (simp add: distinct_map)
  ultimately have "rev xs = rev ys" by (simp add: inj_on_map_eq_map)
  then show ?thesis by simp
qed

lemma order_desc_unique:
  assumes "distinct (map created_at rs)"
  shows "order_by_created_at_desc tie rs = order_by_created_at_desc tie' rs"
proof (rule sorted_desc_unique [where f = created_at])
  show "mset (order_by_created_at_desc tie rs) = mset (order_by_created_at_desc tie' rs)"
    by (simp add: order_desc_mset)
  have "mset (map created_at (order_by_created_at_desc tie' rs)) = mset (map created_at rs)"
    by (simp add: order_desc_mset)
  then show "distinct (map created_at (order_by_created_at_desc tie' rs))"
    using assms by (metis mset_eq_imp_distinct_iff)
qed (rule order_desc_sorted)+

text \<open>
  Claim C7.  The query leaves the order of rows created at the same time open, so
  \<open>tie\<close> is any choice between them.  Whatever the choice, a listing is the slice
  \<open>skip .. skip + limit\<close> of a rearrangement of the rows of the owner asked for (of
  all rows without an owner) in which no row is lost or repeated and creation times
  descend; it holds \<open>min limit (n - skip)\<close> entries, \<open>n\<close> being the number of those
  rows; each entry is the dictionary of a stored row, owned by the owner asked for; its
  creation times descend; without an offset its first entry is a most recently created
  row; and when the identities of the rows differ no identity is listed twice.  When the
  creation times of these rows differ, the listing does not depend on the choice, and a
  page followed by the next page, each from a query of its own, is the page of both
  limits together.
\<close>

theorem get_reports_page:
  "(\<exists>xs. mset xs = mset (owned_reports db owner)
         \<and> sorted_wrt (\<lambda>a b. created_at b \<le> created_at a) xs
         \<and> get_reports tie db owner skip limit = map report_summary (take limit (drop skip xs)))
   \<and> length (get_reports tie db owner skip limit)
       = min limit (length (owned_reports db owner) - skip)
   \<and> (\<forall>d \<in> set (get_reports tie db owner skip limit).
         \<exists>r \<in> set (reports db). d = report_summary r
            \<and> (\<forall>u. owner = Some u \<longrightarrow> user_id r = u))
   \<and> sorted_wrt (\<lambda>a b. d_created_at b \<le> d_created_at a) (get_reports tie db owner skip limit)
   \<and> (skip = 0 \<and> get_reports tie db owner skip limit \<noteq> [] \<longrightarrow>
         (\<forall>r \<in> set (owned_reports db owner).
            created_at r \<le> d_created_at (hd (get_reports tie db owner skip limit))))
   \<and> (distinct (map id' (reports db)) \<longrightarrow>
         distinct (map d_id (get_reports tie db owner skip limit)))
   \<and> (distinct (map created_at (owned_reports db owner)) \<longrightarrow>
         get_reports tie db owner skip limit = get_reports tie' db owner skip limit
         \<and> get_reports tie db owner skip limit @ get_reports tie' db owner (skip + limit) further
             = get_reports tie'' db owner skip (limit + further))"
proof (intro conjI)
  let ?xs = "order_by_created_at_desc tie (owned_reports db owner)"
  have s: "sorted_wrt (\<lambda>a b. created_at b \<le> created_at a) ?xs" by (rule order_desc_sorted)
  show "\<exists>xs. mset xs = mset (owned_reports db owner)
         \<and> sorted_wrt (\<lambda>a b. created_at b \<le> created_at a) xs
         \<and> get_reports tie db owner skip limit = map report_summary (take limit (drop skip xs))"
    using s order_desc_mset [of tie "owned_reports db owner"] get_reports_owned by blast
  from s have "sorted_wrt (\<lambda>a b. created_at b \<le> created_at a) (take limit (drop skip ?xs))"
    by simp
  then show "sorted_wrt (\<lambda>a b. d_created_at b \<le> d_created_at a) (get_reports tie db owner skip limit)"
    by (simp add: get_reports_owned sorted_wrt_map report_summary_created)
  show "length (get_reports tie db owner skip limit)
       = min limit (length (owned_reports db owner) - skip)"
    by (simp add: get_reports_owned order_desc_length min.commute)
  show "\<forall>d \<in> set (get_reports tie db owner skip limit).
         \<exists>r \<in> set (reports db). d = report_summary r
            \<and> (\<forall>u. owner = Some u \<longrightarrow> user_id r = u)"
  proof
    fix d assume "d \<in> set (get_reports tie db owner skip limit)"
    then obtain r where r: "r \<in> set (take limit (drop skip ?xs))" "d = report_summary r"
      by (auto simp: get_reports_owned)
    then have "r \<in> set ?xs" by (meson in_set_dropD in_set_takeD)
    then have "r \<in> set (owned_reports db owner)" by (simp add: order_desc_set)
    then have "r \<in> set (reports db) \<and> (\<forall>u. owner = Some u \<longrightarrow> user_id r = u)"
      by (cases owner) (auto simp: owned_reports_def)
    then show "\<exists>r \<in> set (reports db). d = report_summary r
            \<and> (\<forall>u. owner = Some u \<longrightarrow> user_id r = u)" using r(2) by blast
  qed
  show "skip = 0 \<and> get_reports tie db owner skip limit \<noteq> [] \<longrightarrow>
         (\<forall>r \<in> set (owned_reports db owner).
            created_at r \<le> d_created_at (hd (get_reports tie db owner skip limit)))"
  proof (intro impI ballI)
    fix r assume a: "skip = 0 \<and> get_reports tie db owner skip limit \<noteq> []"
      and r: "r \<in> set (owned_reports db owner)"
    from a have sk: "skip = 0" and g: "get_reports tie db owner skip limit \<noteq> []" by blast+
    from g have ne: "take limit ?xs \<noteq> []" unfolding get_reports_owned sk by simp
    then obtain x xs where x: "?xs = x # xs" by (cases ?xs) auto
    have l: "limit \<noteq> 0" using ne by (cases limit) auto
    have h: "hd (get_reports tie db owner skip limit) = report_summary x"
      using sk x l by (cases limit) (simp_all add: get_reports_owned)
    have "r \<in> set ?xs" using r by (simp add: order_desc_set)
    then have "created_at r \<le> created_at x" using s x by auto
    then show "created_at r \<le> d_created_at (hd (get_reports tie db owner skip limit))"
      by (simp add: h report_summary_created)
  qed
  show "distinct (map id' (reports db)) \<longrightarrow>
         distinct (map d_id (get_reports tie db owner skip limit))"
  proof
    assume "distinct (map id' (reports db))"
    then have "distinct (map id' (owned_reports db owner))"
      by (cases owner) (simp_all add: owned_reports_def distinct_map_filter)
    moreover have "mset (map id' ?xs) = mset (map id' (owned_reports db owner))"
      by (simp add: order_desc_mset)
    ultimately have "distinct (map id' ?xs)" by (metis mset_eq_imp_distinct_iff)
    then have "distinct (map id' (take limit (drop skip ?xs)))"
      by (simp add: take_map [symmetric] drop_map [symmetric] distinct_take distinct_drop
          del: take_map drop_map)
    then show "distinct (map d_id (get_reports tie db owner skip limit))"
      by (simp add: get_reports_owned comp_def report_summary_id)
  qed
  show "distinct (map created_at (owned_reports db owner)) \<longrightarrow>
         get_reports tie db owner skip limit = get_reports tie' db owner skip limit
         \<and> get_reports tie db owner skip limit @ get_reports tie' db owner (skip + limit) further
             = get_reports tie'' db owner skip (limit + further)"
  proof
    assume d: "distinct (map created_at (owned_reports db owner))"
    have u: "order_by_created_at_desc tie' (owned_reports db owner) = ?xs"
      "order_by_created_at_desc tie'' (owned_reports db owner) = ?xs"
      by (rule order_desc_unique [OF d])+
    have "take (limit + further) (drop skip ?xs)
            = take limit (drop skip ?xs) @ take further (drop limit (drop skip ?xs))"
      by (rule take_add)
    also have "drop limit (drop skip ?xs) = drop (skip + limit) ?xs"
      by (simp add: add.commute)
    finally show "get_reports tie db owner skip limit = get_reports tie' db owner skip limit
         \<and> get_reports tie db owner skip limit @ get_reports tie' db owner (skip + limit) further
             = get_reports tie'' db owner skip (limit + further)"
      unfolding get_reports_owned u by simp
  qed
qed

section \<open>The statements on concrete states\<close>

lemma sys_queued_simp: "sys_queued = \<lparr>sys_db = db_queued, background_tasks = [1], in_flight = [],
     files = []\<rparr>"
  by (simp add: sys_queued_def create_report_route_def init_def db_queued_def
      create_report_def Report_defaults_def Let_def)

lemma sys_processing_simp: "sys_processing =
   \<lparr>sys_db = \<lparr>reports = [(hd (reports db_queued))\<lparr>status := ''processing''\<rparr>], next_id = 2\<rparr>,
    background_tasks = [], in_flight = [(hd (reports db_queued))\<lparr>status := ''processing''\<rparr>],
    files = []\<rparr>"
  by (simp add: sys_processing_def sys_queued_simp task_begin_def generate_report_begin_def
      db_queued_simp commit_report_def Let_def)

lemma sys_completed_simp: "sys_completed =
   \<lparr>sys_db = \<lparr>reports = [(hd (reports db_queued))\<lparr>status := ''completed'',
        file_path := Some ''/reports/scouting_report.pdf'', analysis_results := Some document1,
        completed_at := Some 500\<rparr>], next_id = 2\<rparr>,
    background_tasks = [], in_flight = [],
    files = [''/reports/scouting_report.pdf'']\<rparr>"
  by (simp add: sys_completed_def sys_processing_simp task_end_def generate_report_end_def
      db_queued_simp commit_report_def run_pipeline_def get_video_data_def env_ok_def
      rendered_def Let_def)

lemma reachable_queued: "reachable sys_queued"
  unfolding sys_queued_def by (rule reachable_step [OF reachable_init step_create])

lemma step_queued_processing: "step sys_queued sys_processing"
  unfolding sys_processing_def by (rule step_begin) (simp add: sys_queued_simp)

lemma reachable_processing: "reachable sys_processing"
  by (rule reachable_step [OF reachable_queued step_queued_processing])

lemma step_processing_completed: "step sys_processing sys_completed"
  unfolding sys_completed_def by (rule step_end) (simp add: sys_processing_simp)

lemma reachable_completed: "reachable sys_completed"
  by (rule reachable_step [OF reachable_processing step_processing_completed])

text \<open>
  The task of the first job ends: \<open>processing\<close> to \<open>completed\<close>.
\<close>

theorem status_state_machine_witness:
  "reachable sys_processing \<and> step sys_processing sys_completed
   \<and> status (hd (reports (sys_db sys_processing))) = ''processing''
   \<and> status (hd (reports (sys_db sys_completed))) = ''completed''
   \<and> transition_ok ''processing'' ''completed''
   \<and> ''processing'' \<in> statuses \<and> ''completed'' \<in> statuses"
  using status_state_machine [OF reachable_processing step_processing_completed,
      of "hd (reports (sys_db sys_processing))" "hd (reports (sys_db sys_completed))"]
    reachable_processing step_processing_completed
  by (simp add: sys_processing_simp sys_completed_simp db_queued_simp)

text \<open>
  The completed job of \<open>sys_completed\<close>.
\<close>

theorem completed_iff_results_witness:
  "reachable sys_completed
   \<and> hd (reports (sys_db sys_completed)) \<in> set (reports (sys_db sys_completed))
   \<and> (status (hd (reports (sys_db sys_completed))) = ''completed'' \<longleftrightarrow>
        file_path (hd (reports (sys_db sys_completed))) \<noteq> None
        \<and> analysis_results (hd (reports (sys_db sys_completed))) \<noteq> None
        \<and> completed_at (hd (reports (sys_db sys_completed))) \<noteq> None)"
  using completed_iff_results [OF reachable_completed,
      of "hd (reports (sys_db sys_completed))"] reachable_completed
  by (simp add: sys_completed_simp db_queued_simp)

text \<open>
  The first creation request, on the initial state.
\<close>

theorem create_report_route_queued_witness:
  "reachable init
   \<and> snd (create_report_route init request1 100)
       = ((1, ''queued''), ''Report creation initiated'', 202)
   \<and> background_tasks (fst (create_report_route init request1 100)) = [1]
   \<and> in_flight (fst (create_report_route init request1 100)) = []"
  using create_report_route_queued [OF reachable_init,
      of request1 100 "fst (create_report_route init request1 100)"
        "snd (create_report_route init request1 100)"] reachable_init
  by (simp add: init_def)

text \<open>
  The job of \<open>sys_processing\<close>, read while its task is between its commits.
\<close>

theorem results_only_when_completed_witness:
  "reachable sys_processing
   \<and> get_report (sys_db sys_processing) 1 = Some (the (get_report (sys_db sys_processing) 1))
   \<and> d_status (the (get_report (sys_db sys_processing) 1)) = ''processing''
   \<and> d_analysis_results (the (get_report (sys_db sys_processing) 1)) = None
   \<and> d_download_url (the (get_report (sys_db sys_processing) 1)) = None
   \<and> download_disabled (the (get_report (sys_db sys_processing) 1))"
  using results_only_when_completed [OF reachable_processing,
      of 1 "the (get_report (sys_db sys_processing) 1)" tie_low None 0 0] reachable_processing
  by (simp add: sys_processing_simp get_report_def report_summary_def db_queued_simp
      download_url_def)

text \<open>
  The completed job of \<open>sys_completed\<close> is deleted.
\<close>

theorem delete_then_not_found_witness:
  "delete_report_route sys_completed 1
     = (fst (delete_report_route sys_completed 1), Inr ''Report deleted successfully'')
   \<and> get_report_route (fst (delete_report_route sys_completed 1)) 1
       = Inl (HTTPException 404 ''Report not found'')
   \<and> get_report_file_path (sys_db (fst (delete_report_route sys_completed 1))) 1 = None"
  using delete_then_not_found [of sys_completed 1 "fst (delete_report_route sys_completed 1)"
      "''Report deleted successfully''"]
  by (simp add: sys_completed_simp db_queued_simp delete_report_route_def delete_report_def)

text \<open>
  The claim as written has the delete remove the artifact.  The completed job of
  \<open>sys_completed\<close> has its artifact at \<open>/reports/scouting_report.pdf\<close>; the delete
  succeeds and the file is still stored.
\<close>

theorem delete_then_not_found_counterexample:
  "file_path (the (first_report (reports (sys_db sys_completed)) 1))
     = Some ''/reports/scouting_report.pdf''
   \<and> snd (delete_report_route sys_completed 1) = Inr ''Report deleted successfully''
   \<and> ''/reports/scouting_report.pdf'' \<in> set (files (fst (delete_report_route sys_completed 1)))"
  by (simp add: sys_completed_simp db_queued_simp delete_report_route_def delete_report_def)

lemma db_four_simp: "map (\<lambda>r. (id' r, user_id r, created_at r)) (reports db_four)
     = [(1, 1, 100), (2, 1, 200), (3, 2, 250), (4, 1, 300)]"
  by (simp add: db_four_def create_report_def Report_defaults_def request_of_def request1_def Let_def)

text \<open>
  The two rows of \<open>db_tied\<close> were created at the same time; the two choices list them
  in opposite orders, both descending by creation time.
\<close>

lemma ties_in_either_order:
  "map d_id (get_reports tie_low db_tied (Some 1) 0 2) = [2, 1]
   \<and> map d_id (get_reports tie_high db_tied (Some 1) 0 2) = [1, 2]
   \<and> map d_created_at (get_reports tie_low db_tied (Some 1) 0 2) = [100, 100]"
  by (simp add: get_reports_def order_by_created_at_desc_def db_tied_def tie_low_def
      tie_high_def create_report_def Report_defaults_def request_of_def request1_def Let_def
      report_summary_def)

text \<open>
  Scenario D.  Owner 1 has three jobs, created at 100, 200 and 300, and the limit is 2:
  exactly two entries, the job created at 300 before the job created at 200, whatever the
  choice between ties; the next page holds the job created at 100.
\<close>

theorem get_reports_page_witness:
  "map d_id (get_reports tie_low db_four (Some 1) 0 2) = [4, 2]
   \<and> map d_id (get_reports tie_high db_four (Some 1) 2 2) = [1]
   \<and> length (owned_reports db_four (Some 1)) = 3
   \<and> distinct (map id' (reports db_four))
   \<and> distinct (map created_at (owned_reports db_four (Some 1)))
   \<and> map created_at (owned_reports db_four (Some 1)) = [100, 200, 300]
   \<and> d_created_at (hd (get_reports tie_low db_four (Some 1) 0 2)) = 300
   \<and> distinct (map d_id (get_reports tie_low db_four (Some 1) 0 2))
   \<and> get_reports tie_low db_four (Some 1) 0 2 = get_reports tie_high db_four (Some 1) 0 2
   \<and> get_reports tie_low db_four (Some 1) 0 2 @ get_reports tie_high db_four (Some 1) 2 2
       = get_reports tie_low db_four (Some 1) 0 4"
  using get_reports_page [of db_four "Some 1" tie_low 0 2 tie_high 2 tie_low]
  by (simp add: get_reports_def owned_reports_def order_by_created_at_desc_def db_four_def
      tie_low_def tie_high_def create_report_def Report_defaults_def request_of_def request1_def
      Let_def report_summary_def)

section \<open>The controllers\<close>

lemma get_prop_fails_all:
  "get_prop data k = Inl e \<Longrightarrow> \<exists>e'. get_prop data k' = Inl e'"
  by (cases data) auto

lemma get_prop_reads_all:
  "get_prop data k = Inr v \<Longrightarrow> \<exists>v'. get_prop data k' = Inr v'"
  by (cases data) auto

lemma settles_well_before_ok:
  assumes "\<forall>args. onError args = None"
    and "\<not> (\<exists>response data. fetched = Inr response \<and> json response = Inr data \<and> ok response)"
  shows "settles_well fallback fetched (catch_clause onError (awaiting fetched fallback cont))"
proof (cases fetched)
  case (Inl e)
  then show ?thesis using assms(1)
    by (simp add: settles_well_def catch_clause_def awaiting_def error_argument_def)
next
  case (Inr response)
  show ?thesis
  proof (cases "json response")
    case (Inl e)
    then show ?thesis using assms(1) Inr
      by (simp add: settles_well_def catch_clause_def awaiting_def error_argument_def)
  next
    case body: (Inr data)
    then have n: "\<not> ok response" using assms(2) Inr by simp
    show ?thesis using assms(1) Inr body n
      by (cases "get_prop data ''message''")
         (simp_all add: settles_well_def catch_clause_def awaiting_def reading_def
            error_argument_def)
  qed
qed

lemma settles_well_thrown:
  assumes "\<forall>args. onError args = None" and "fetched = Inr response" and "ok response"
    and "json response = Inr data" and "get_prop data ''status'' = Inl e"
  shows "settles_well fallback fetched (catch_clause onError ([], Some e))"
  using assms by (simp add: settles_well_def catch_clause_def error_argument_def)

lemma settles_well_otherwise:
  assumes "\<forall>args. onError args = None" and "fetched = Inr response" and "ok response"
    and "json response = Inr data" and "get_prop data ''status'' = Inr st"
    and "get_prop data ''message'' = Inr m"
  shows "settles_well fallback fetched
     (catch_clause onError
        ([OnError [js_or m (Str fallback)]], onError [js_or m (Str fallback)]))"
  using assms
  by (simp add: settles_well_def catch_clause_def body_message_def error_argument_def)

lemma getReports_settles:
  assumes s: "\<forall>args. onSuccess args = None" and e: "\<forall>args. onError args = None"
  shows "settles_well ''Failed to fetch reports'' fetched (getReports fetched onSuccess onError)"
proof (cases "\<exists>response data. fetched = Inr response \<and> json response = Inr data \<and> ok response")
  case False
  then show ?thesis unfolding getReports_def by (rule settles_well_before_ok [OF e])
next
  case True
  then obtain response data where f: "fetched = Inr response" "json response = Inr data"
    and True: "ok response" by blast
  show ?thesis
  proof (cases "get_prop data ''status''")
    case (Inl x)
    then show ?thesis using f True settles_well_thrown [OF e f(1) True f(2) Inl, of "''Failed to fetch reports''"]
      by (simp add: getReports_def awaiting_def reading_def Let_def)
  next
    case (Inr st)
    obtain payload m where p: "get_prop data ''data'' = Inr payload"
      "get_prop data ''message'' = Inr m"
      using get_prop_reads_all [OF Inr] by blast
    note o = settles_well_otherwise [OF e f(1) True f(2) Inr p(2), of "''Failed to fetch reports''"]
      show ?thesis
      proof (cases "st = Str ''success'' \<and> truthy payload")
        case False
        then show ?thesis using f True Inr p o
          by (auto simp: getReports_def awaiting_def reading_def Let_def)
      next
        case yes: True
        then show ?thesis using f True Inr p s
          by (simp add: getReports_def awaiting_def reading_def Let_def settles_well_def
              catch_clause_def failed_exchange_def)
    qed
  qed
qed

lemma getReportById_settles:
  assumes s: "\<forall>args. onSuccess args = None" and e: "\<forall>args. onError args = None"
  shows "settles_well ''Failed to fetch report'' fetched (getReportById fetched onSuccess onError)"
proof (cases "\<exists>response data. fetched = Inr response \<and> json response = Inr data \<and> ok response")
  case False
  then show ?thesis unfolding getReportById_def by (rule settles_well_before_ok [OF e])
next
  case True
  then obtain response data where f: "fetched = Inr response" "json response = Inr data"
    and True: "ok response" by blast
  show ?thesis
  proof (cases "get_prop data ''status''")
    case (Inl x)
    then show ?thesis using f True settles_well_thrown [OF e f(1) True f(2) Inl, of "''Failed to fetch report''"]
      by (simp add: getReportById_def awaiting_def reading_def Let_def)
  next
    case (Inr st)
    obtain payload m where p: "get_prop data ''data'' = Inr payload"
      "get_prop data ''message'' = Inr m"
      using get_prop_reads_all [OF Inr] by blast
    note o = settles_well_otherwise [OF e f(1) True f(2) Inr p(2), of "''Failed to fetch report''"]
      show ?thesis
      proof (cases "st = Str ''success'' \<and> truthy payload")
        case False
        then show ?thesis using f True Inr p o
          by (auto simp: getReportById_def awaiting_def reading_def Let_def)
      next
        case yes: True
        then show ?thesis using f True Inr p s
          by (simp add: getReportById_def awaiting_def reading_def Let_def settles_well_def
              catch_clause_def failed_exchange_def)
    qed
  qed
qed

lemma createReport_settles:
  assumes s: "\<forall>args. onSuccess args = None" and e: "\<forall>args. onError args = None"
  shows "settles_well ''Failed to create report'' fetched (createReport fetched onSuccess onError)"
proof (cases "\<exists>response data. fetched = Inr response \<and> json response = Inr data \<and> ok response")
  case False
  then show ?thesis unfolding createReport_def by (rule settles_well_before_ok [OF e])
next
  case True
  then obtain response data where f: "fetched = Inr response" "json response = Inr data"
    and True: "ok response" by blast
  show ?thesis
  proof (cases "get_prop data ''status''")
    case (Inl x)
    then show ?thesis using f True settles_well_thrown [OF e f(1) True f(2) Inl, of "''Failed to create report''"]
      by (simp add: createReport_def awaiting_def reading_def Let_def)
  next
    case (Inr st)
    obtain payload m where p: "get_prop data ''data'' = Inr payload"
      "get_prop data ''message'' = Inr m"
      using get_prop_reads_all [OF Inr] by blast
    note o = settles_well_otherwise [OF e f(1) True f(2) Inr p(2), of "''Failed to create report''"]
      show ?thesis
      proof (cases "st = Str ''success''")
        case False
        then show ?thesis using f True Inr p o
          by (auto simp: createReport_def awaiting_def reading_def Let_def)
      next
        case yes: True
        then show ?thesis using f True Inr p s
          by (simp add: createReport_def awaiting_def reading_def Let_def settles_well_def
              catch_clause_def failed_exchange_def)
    qed
  qed
qed

lemma deleteReport_settles:
  assumes s: "\<forall>args. onSuccess args = None" and e: "\<forall>args. onError args = None"
  shows "settles_well ''Failed to delete report'' fetched (deleteReport fetched onSuccess onError)"
proof (cases "\<exists>response data. fetched = Inr response \<and> json response = Inr data \<and> ok response")
  case False
  then show ?thesis unfolding deleteReport_def by (rule settles_well_before_ok [OF e])
next
  case True
  then obtain response data where f: "fetched = Inr response" "json response = Inr data"
    and True: "ok response" by blast
  show ?thesis
  proof (cases "get_prop data ''status''")
    case (Inl x)
    then show ?thesis using f True settles_well_thrown [OF e f(1) True f(2) Inl, of "''Failed to delete report''"]
      by (simp add: deleteReport_def awaiting_def reading_def Let_def)
  next
    case (Inr st)
    obtain payload m where p: "get_prop data ''data'' = Inr payload"
      "get_prop data ''message'' = Inr m"
      using get_prop_reads_all [OF Inr] by blast
    note o = settles_well_otherwise [OF e f(1) True f(2) Inr p(2), of "''Failed to delete report''"]
      show ?thesis
      proof (cases "st = Str ''success''")
        case False
        then show ?thesis using f True Inr p o
          by (auto simp: deleteReport_def awaiting_def reading_def Let_def)
      next
        case yes: True
        then show ?thesis using f True Inr p s
          by (simp add: deleteReport_def awaiting_def reading_def Let_def settles_well_def
              catch_clause_def failed_exchange_def)
    qed
  qed
qed

text \<open>
  Claim C10, as the code has it.  For each of the four controllers, \<open>fallback\<close> being
  its own text, and callbacks that do not throw: the promise is fulfilled and exactly one
  callback is called.  After a failed exchange (the request failed, the body did not
  parse, the response was not OK, or the body has no status \<open>success\<close>) the call is
  \<open>onError\<close> with the one argument \<open>error_argument\<close> gives.  That is: the message
  of the error when the request fails; a string for every response that is not OK, the
  text of \<open>data.message || fallback\<close> when the body has a message to read; and for an
  OK response whose status is not \<open>success\<close>, the \<open>message\<close> of the body itself
  when it is truthy, of whatever type, and the fallback text otherwise.
\<close>

theorem controllers_settle:
  assumes "(f, fallback) \<in> {(getReports, ''Failed to fetch reports''),
             (getReportById, ''Failed to fetch report''),
             (createReport, ''Failed to create report''),
             (deleteReport, ''Failed to delete report'')}"
    and "\<forall>args. onSuccess args = None" and "\<forall>args. onError args = None"
  shows "snd (f fetched onSuccess onError) = None
     \<and> length (fst (f fetched onSuccess onError)) = 1
     \<and> (failed_exchange fetched \<longrightarrow>
          fst (f fetched onSuccess onError) = [OnError [error_argument fallback fetched]])
     \<and> (\<forall>e. fetched = Inl e \<longrightarrow>
          fst (f fetched onSuccess onError) = [OnError [Str (message e)]])
     \<and> (\<forall>response. fetched = Inr response \<and> \<not> ok response \<longrightarrow>
          (\<exists>s. fst (f fetched onSuccess onError) = [OnError [Str s]])
          \<and> (\<forall>data m. json response = Inr data \<and> get_prop data ''message'' = Inr m \<longrightarrow>
                fst (f fetched onSuccess onError)
                  = [OnError [Str (to_string (if truthy m then m else Str fallback))]]))
     \<and> (\<forall>response data st. fetched = Inr response \<and> ok response
            \<and> json response = Inr data \<and> get_prop data ''status'' = Inr st
            \<and> st \<noteq> Str ''success'' \<longrightarrow>
          fst (f fetched onSuccess onError)
            = [OnError [if truthy (body_message fetched) then body_message fetched
                        else Str fallback]])"
proof -
  let ?calls = "fst (f fetched onSuccess onError)"
  have "settles_well fallback fetched (f fetched onSuccess onError)"
    using assms getReports_settles getReportById_settles createReport_settles
      deleteReport_settles by auto
  then have a: "snd (f fetched onSuccess onError) = None" "length ?calls = 1"
    and g: "failed_exchange fetched \<Longrightarrow> ?calls = [OnError [error_argument fallback fetched]]"
    by (simp_all add: settles_well_def)
  have b: "?calls = [OnError [Str (message e)]]" if "fetched = Inl e" for e
    using g that by (simp add: failed_exchange_def error_argument_def)
  have c1: "\<exists>s. ?calls = [OnError [Str s]]" if "fetched = Inr response" "\<not> ok response"
    for response
    using g that by (auto simp: failed_exchange_def error_argument_def split: sum.splits)
  have c2: "?calls = [OnError [Str (to_string (if truthy m then m else Str fallback))]]"
    if "fetched = Inr response" "\<not> ok response" "json response = Inr data"
      "get_prop data ''message'' = Inr m" for response data m
    using g that by (simp add: failed_exchange_def error_argument_def js_or_def)
  have d: "?calls = [OnError [if truthy (body_message fetched) then body_message fetched
                        else Str fallback]]"
    if "fetched = Inr response" "ok response" "json response = Inr data"
      "get_prop data ''status'' = Inr st" "st \<noteq> Str ''success''" for response data st
    using g that by (simp add: failed_exchange_def error_argument_def js_or_def)
  show ?thesis using a g b c1 c2 d by blast
qed

text \<open>
  A response that is not OK with the message 42 in its body: \<open>getReportById\<close> calls
  \<open>onError('42')\<close>, a string.  An OK response with status \<open>error\<close>:
  \<open>createReport\<close> passes the message of the body on, or its own text when the body has
  none.  A request that fails: \<open>deleteReport\<close> passes the message of the error on.
\<close>

theorem controllers_settle_witness:
  "(getReportById, ''Failed to fetch report'') \<in> {(getReports, ''Failed to fetch reports''),
       (getReportById, ''Failed to fetch report''),
       (createReport, ''Failed to create report''),
       (deleteReport, ''Failed to delete report'')}
   \<and> quiet [Str ''42''] = None
   \<and> failed_exchange (Inr \<lparr>ok = False, json = Inr (Obj [(''message'', Num 42)])\<rparr>)
   \<and> get_prop (Obj [(''message'', Num 42)]) ''message'' = Inr (Num 42)
   \<and> snd (getReportById (Inr \<lparr>ok = False, json = Inr (Obj [(''message'', Num 42)])\<rparr>)
          quiet quiet) = None
   \<and> fst (getReportById (Inr \<lparr>ok = False, json = Inr (Obj [(''message'', Num 42)])\<rparr>)
          quiet quiet) = [OnError [Str ''42'']]
   \<and> error_argument ''Failed to fetch report''
        (Inr \<lparr>ok = False, json = Inr (Obj [(''message'', Num 42)])\<rparr>) = Str ''42''
   \<and> fst (createReport
          (Inr \<lparr>ok = True, json = Inr (Obj [(''status'', Str ''error''),
             (''message'', Str ''Video not found'')])\<rparr>) quiet quiet)
     = [OnError [Str ''Video not found'']]
   \<and> fst (createReport
          (Inr \<lparr>ok = True, json = Inr (Obj [(''status'', Str ''error'')])\<rparr>) quiet quiet)
     = [OnError [Str ''Failed to create report'']]
   \<and> fst (deleteReport (Inl (Error ''Failed to fetch'')) quiet quiet)
     = [OnError [Str ''Failed to fetch'']]"
  using controllers_settle [of getReportById "''Failed to fetch report''" quiet quiet
      "Inr \<lparr>ok = False, json = Inr (Obj [(''message'', Num 42)])\<rparr>"]
    controllers_settle [of createReport "''Failed to create report''" quiet quiet
      "Inr \<lparr>ok = True, json = Inr (Obj [(''status'', Str ''error''),
             (''message'', Str ''Video not found'')])\<rparr>"]
    controllers_settle [of createReport "''Failed to create report''" quiet quiet
      "Inr \<lparr>ok = True, json = Inr (Obj [(''status'', Str ''error'')])\<rparr>"]
    controllers_settle [of deleteReport "''Failed to delete report''" quiet quiet
      "Inl (Error ''Failed to fetch'')"]
  by (simp add: quiet_def failed_exchange_def error_argument_def body_message_def js_or_def
      str_int_def str_nat.simps)

text \<open>
  The claim as written has \<open>onError\<close> carry a string.  An OK response whose body is
  \<open>{status: 'error', message: 42}\<close> makes \<open>getReports\<close> call \<open>onError(42)\<close>.
\<close>

theorem controllers_settle_counterexample:
  "failed_exchange
     (Inr \<lparr>ok = True, json = Inr (Obj [(''status'', Str ''error''), (''message'', Num 42)])\<rparr>)
   \<and> getReports
       (Inr \<lparr>ok = True, json = Inr (Obj [(''status'', Str ''error''), (''message'', Num 42)])\<rparr>)
       quiet quiet
     = ([OnError [Num 42]], None)"
  by (simp add: failed_exchange_def getReports_def awaiting_def reading_def catch_clause_def
      js_or_def quiet_def Let_def)

section \<open>The creation form\<close>

text \<open>
  Claim C9.  Whenever \<open>handleCreateReport\<close> hands a body to \<open>createReport\<close>, its
  description is \<open>Scouting report for\<close> followed by the team name when that is not empty
  and by \<open>opponent team\<close> otherwise, its \<open>video_id\<close> is \<open>parseInt\<close> of the selected
  video, a video is selected and the title is not empty.
\<close>

theorem create_request_body:
  assumes "handleCreateReport st = (shown, Some body)"
  shows "rd_description body
           = ''Scouting report for ''
               @ (if teamName st = [] then ''opponent team'' else teamName st)
     \<and> rd_video_id body = parseInt (selectedVideo st)
     \<and> truthy (selectedVideo st)
     \<and> reportTitle st \<noteq> []"
  using assms
  by (auto simp: handleCreateReport_def js_or_def Let_def split: if_splits sum.splits)

lemma parseInt_7: "parseInt (Num 7) = Num 7"
  by code_simp

text \<open>
  Video 7 is selected, the title is \<open>Game 1\<close> and the team is \<open>Lions\<close>.
\<close>

theorem create_request_body_witness:
  "handleCreateReport page1
     = ([], Some \<lparr>rd_title = ''Game 1'', rd_description = ''Scouting report for Lions'',
          rd_video_id = Num 7, rd_video_title = Str ''Lions at home'', rd_team_name = ''Lions'',
          rd_opponent_name = [], rd_user_id = Num 1\<rparr>)
   \<and> rd_description (the (snd (handleCreateReport page1))) = ''Scouting report for Lions''
   \<and> truthy (selectedVideo page1) \<and> reportTitle page1 \<noteq> []"
  using create_request_body [of page1 "[]" "the (snd (handleCreateReport page1))"]
  by (simp add: handleCreateReport_def page1_def parseInt_7 strict_equal_def js_or_def)

lemma parseInt_examples:
  "parseInt (Str ''42'') = Num 42" "parseInt (Str '' -12abc'') = Num (- 12)"
  "parseInt (Str ''0x1f'') = Num 31" "parseInt (Str []) = NaN" "parseInt (Str ''abc'') = NaN"
  by code_simp+

lemma no_video_no_request:
  "handleCreateReport (page1\<lparr>selectedVideo := Str []\<rparr>) = ([ShowError ''Please select a video''], None)"
  by (simp add: handleCreateReport_def page1_def)

end
